theory Spec2Isabelle
  imports Main "HOL-Library.Multiset" "HOL-Library.Sublist"
begin

section \<open>The browser library as seen by the resource pool\<close>

text \<open>
  \<^verbatim>\<open>multi-session-manager.ts\<close> drives Playwright through a handful of calls:
  \<^verbatim>\<open>launchPersistentContext\<close>, \<^verbatim>\<open>context.newPage\<close>, the three \<^verbatim>\<open>close\<close> methods and the
  two liveness tests \<^verbatim>\<open>page.isClosed\<close> and \<^verbatim>\<open>browser.isConnected\<close>. The library is not part
  of the repository, so it is a state of its own here: the calls made so far (in order),
  which calls throw, which browsers are connected and which pages are closed. A close
  that succeeds marks its own receiver only; what else the library tears down with it is
  left out.
\<close>

type_synonym handle = nat

datatype call =
    Launch string
  | NewPage handle
  | PageClose handle
  | ContextClose handle
  | BrowserClose handle

record playwright =
  calls :: "call list"
  throwing :: "call set"
  connected :: "handle set"
  closed :: "handle set"
  fresh :: handle
  errlog :: "string list"

definition invoke :: "call \<Rightarrow> playwright \<Rightarrow> playwright" where
  "invoke c w = w\<lparr>calls := calls w @ [c]\<rparr>"

definition page_isClosed :: "playwright \<Rightarrow> handle \<Rightarrow> bool" where
  "page_isClosed w p = (p \<in> closed w)"

definition browser_isConnected :: "playwright \<Rightarrow> handle \<Rightarrow> bool" where
  "browser_isConnected w b = (b \<in> connected w)"

text \<open>Each library call either throws (\<open>Inl\<close> the error text) or returns.\<close>

definition page_close :: "handle \<Rightarrow> playwright \<Rightarrow> (string + unit) \<times> playwright" where
  "page_close p w =
     (if PageClose p \<in> throwing w then (Inl ''page.close failed'', invoke (PageClose p) w)
      else (Inr (), (invoke (PageClose p) w)\<lparr>closed := insert p (closed w)\<rparr>))"

definition context_close :: "handle \<Rightarrow> playwright \<Rightarrow> (string + unit) \<times> playwright" where
  "context_close c w =
     (if ContextClose c \<in> throwing w then (Inl ''context.close failed'', invoke (ContextClose c) w)
      else (Inr (), invoke (ContextClose c) w))"

definition browser_close :: "handle \<Rightarrow> playwright \<Rightarrow> (string + unit) \<times> playwright" where
  "browser_close b w =
     (if BrowserClose b \<in> throwing w then (Inl ''browser.close failed'', invoke (BrowserClose b) w)
      else (Inr (), (invoke (BrowserClose b) w)\<lparr>connected := connected w - {b}\<rparr>))"

text \<open>
  \<^verbatim>\<open>launchPersistentContext(userDataDir, ...)\<close> returns a new context; the browser that
  \<^verbatim>\<open>context.browser()\<close> then gives is allocated with it.
\<close>

definition launchPersistentContext ::
  "string \<Rightarrow> playwright \<Rightarrow> (string + handle \<times> handle) \<times> playwright" where
  "launchPersistentContext dir w =
     (if Launch dir \<in> throwing w then (Inl ''launch failed'', invoke (Launch dir) w)
      else (Inr (fresh w, Suc (fresh w)),
            (invoke (Launch dir) w)\<lparr>connected := insert (Suc (fresh w)) (connected w),
                                     fresh := fresh w + 2\<rparr>))"

definition newPage :: "handle \<Rightarrow> playwright \<Rightarrow> (string + handle) \<times> playwright" where
  "newPage c w =
     (if NewPage c \<in> throwing w then (Inl ''newPage failed'', invoke (NewPage c) w)
      else (Inr (fresh w), (invoke (NewPage c) w)\<lparr>fresh := Suc (fresh w)\<rparr>))"

definition console_error :: "string \<Rightarrow> playwright \<Rightarrow> playwright" where
  "console_error line w = w\<lparr>errlog := errlog w @ [line]\<rparr>"

definition launches :: "playwright \<Rightarrow> nat" where
  "launches w = length (filter (\<lambda>c. case c of Launch _ \<Rightarrow> True | _ \<Rightarrow> False) (calls w))"

section \<open>MultiSessionManager\<close>

record BrowserSession =
  browser :: "handle option"
  bcontext :: "handle option"
  page :: "handle option"
  userDataDir :: string
  storageStatePath :: string

record manager =
  sessions :: "string \<rightharpoonup> BrowserSession"
  sessionsDir :: string
  storageStatesDir :: string
  pw :: playwright

text \<open>
  \<^verbatim>\<open>path.join\<close> of Node (POSIX): the non-empty arguments are joined with \<^verbatim>\<open>/\<close> and the
  result is normalised: empty and \<^verbatim>\<open>.\<close> segments go, a \<^verbatim>\<open>..\<close> takes the segment before
  it with it (above the start of a relative path it stays), a trailing \<^verbatim>\<open>/\<close> is kept.
\<close>

fun split_path :: "string \<Rightarrow> string list" where
  "split_path [] = [[]]"
| "split_path (c # cs) =
     (if c = CHR ''/'' then [] # split_path cs
      else (case split_path cs of
              [] \<Rightarrow> [[c]]
            | seg # rest \<Rightarrow> (c # seg) # rest))"

fun normalizeString :: "bool \<Rightarrow> string list \<Rightarrow> string list \<Rightarrow> string list" where
  "normalizeString allowAboveRoot [] res = rev res"
| "normalizeString allowAboveRoot (seg # rest) res =
     (if seg = [] \<or> seg = ''.'' then normalizeString allowAboveRoot rest res
      else if seg = ''..'' then
        (case res of
           [] \<Rightarrow> normalizeString allowAboveRoot rest (if allowAboveRoot then [''..''] else [])
         | seg0 # below \<Rightarrow>
             if seg0 \<noteq> ''..'' then normalizeString allowAboveRoot rest below
             else normalizeString allowAboveRoot rest (if allowAboveRoot then ''..'' # res else res))
      else normalizeString allowAboveRoot rest (seg # res))"

fun slashed :: "string list \<Rightarrow> string" where
  "slashed [] = []"
| "slashed [a] = a"
| "slashed (a # b # rest) = a @ ''/'' @ slashed (b # rest)"

definition path_normalize :: "string \<Rightarrow> string" where
  "path_normalize p =
     (if p = [] then ''.''
      else
        (let isAbsolute = (hd p = CHR ''/'');
             trailingSeparator = (last p = CHR ''/'');
             s = slashed (normalizeString (\<not> isAbsolute) (split_path p) [])
         in if s = [] then (if isAbsolute then ''/'' else if trailingSeparator then ''./'' else ''.'')
            else (if isAbsolute then ''/'' else []) @ s @ (if trailingSeparator then ''/'' else [])))"

definition path_join :: "string list \<Rightarrow> string" where
  "path_join paths =
     (let joined = slashed (filter (\<lambda>p. p \<noteq> []) paths)
      in if joined = [] then ''.'' else path_normalize joined)"

definition ensureSession :: "string \<Rightarrow> manager \<Rightarrow> BrowserSession \<times> manager" where
  "ensureSession sessionId m =
     (case sessions m sessionId of
        Some session \<Rightarrow> (session, m)
      | None \<Rightarrow>
          (let session = \<lparr>browser = None, bcontext = None, page = None,
                          userDataDir = path_join [sessionsDir m, sessionId],
                          storageStatePath =
                            path_join [storageStatesDir m, sessionId @ ''-state.json'']\<rparr>
           in (session, m\<lparr>sessions := (sessions m)(sessionId \<mapsto> session)\<rparr>)))"

text \<open>
  \<^verbatim>\<open>ensureBrowser\<close>, when nothing else runs between its suspension points: the test
  \<^verbatim>\<open>!session.browser || !session.browser.isConnected()\<close>, the launch, and the two
  assignments to the session object.
\<close>

definition needs_launch :: "playwright \<Rightarrow> BrowserSession \<Rightarrow> bool" where
  "needs_launch w session =
     (case browser session of None \<Rightarrow> True | Some b \<Rightarrow> \<not> browser_isConnected w b)"

definition store_launch :: "string \<Rightarrow> handle \<Rightarrow> handle \<Rightarrow> manager \<Rightarrow> manager" where
  "store_launch sessionId c b m =
     (case sessions m sessionId of
        None \<Rightarrow> m
      | Some session \<Rightarrow>
          m\<lparr>sessions := (sessions m)(sessionId \<mapsto> session\<lparr>bcontext := Some c, browser := Some b\<rparr>)\<rparr>)"

definition ensureBrowser :: "string \<Rightarrow> manager \<Rightarrow> (string + handle option) \<times> manager" where
  "ensureBrowser sessionId m0 =
     (let (session, m) = ensureSession sessionId m0 in
      if needs_launch (pw m) session then
        (case launchPersistentContext (userDataDir session) (pw m) of
           (Inl err, w) \<Rightarrow> (Inl err, m\<lparr>pw := w\<rparr>)
         | (Inr (c, b), w) \<Rightarrow> (Inr (Some b), store_launch sessionId c b (m\<lparr>pw := w\<rparr>)))
      else (Inr (browser session), m))"

definition ensureContext :: "string \<Rightarrow> manager \<Rightarrow> (string + handle option) \<times> manager" where
  "ensureContext sessionId m0 =
     (let (session, m) = ensureSession sessionId m0 in
      case bcontext session of
        Some c \<Rightarrow> (Inr (Some c), m)
      | None \<Rightarrow>
          (case ensureBrowser sessionId m of
             (Inl err, m') \<Rightarrow> (Inl err, m')
           | (Inr _, m') \<Rightarrow>
               (Inr (case sessions m' sessionId of None \<Rightarrow> None | Some s \<Rightarrow> bcontext s), m')))"

definition store_page :: "string \<Rightarrow> handle \<Rightarrow> manager \<Rightarrow> manager" where
  "store_page sessionId p m =
     (case sessions m sessionId of
        None \<Rightarrow> m
      | Some session \<Rightarrow> m\<lparr>sessions := (sessions m)(sessionId \<mapsto> session\<lparr>page := Some p\<rparr>)\<rparr>)"

definition needs_page :: "playwright \<Rightarrow> BrowserSession \<Rightarrow> bool" where
  "needs_page w session = (case page session of None \<Rightarrow> True | Some p \<Rightarrow> page_isClosed w p)"

definition ensurePage :: "string \<Rightarrow> manager \<Rightarrow> (string + handle option) \<times> manager" where
  "ensurePage sessionId m0 =
     (let (session, m) = ensureSession sessionId m0 in
      if needs_page (pw m) session then
        (case ensureContext sessionId m of
           (Inl err, m') \<Rightarrow> (Inl err, m')
         | (Inr None, m') \<Rightarrow> (Inl ''TypeError: Cannot read properties of null'', m')
         | (Inr (Some c), m') \<Rightarrow>
             (case newPage c (pw m') of
                (Inl err, w) \<Rightarrow> (Inl err, m'\<lparr>pw := w\<rparr>)
              | (Inr p, w) \<Rightarrow> (Inr (Some p), store_page sessionId p (m'\<lparr>pw := w\<rparr>))))
      else (Inr (page session), m))"

subsection \<open>cleanupSession\<close>

text \<open>
  Each of the three close steps sits in its own \<^verbatim>\<open>try { ... } catch (error) { console.error(...) }\<close>.
  \<open>catching\<close> is that block: it runs the step and, when the step throws, writes the
  diagnostic line and goes on.
\<close>

definition catching ::
  "string \<Rightarrow> (playwright \<Rightarrow> (string + unit) \<times> playwright) \<Rightarrow> playwright \<Rightarrow> playwright" where
  "catching label step w =
     (case step w of
        (Inl err, w') \<Rightarrow> console_error (label @ '' '' @ err) w'
      | (Inr _, w') \<Rightarrow> w')"

definition skip :: "playwright \<Rightarrow> (string + unit) \<times> playwright" where
  "skip w = (Inr (), w)"

definition close_page_step :: "BrowserSession \<Rightarrow> playwright \<Rightarrow> (string + unit) \<times> playwright" where
  "close_page_step session w =
     (case page session of
        Some p \<Rightarrow> if \<not> page_isClosed w p then page_close p w else skip w
      | None \<Rightarrow> skip w)"

definition close_context_step :: "BrowserSession \<Rightarrow> playwright \<Rightarrow> (string + unit) \<times> playwright" where
  "close_context_step session w =
     (case bcontext session of Some c \<Rightarrow> context_close c w | None \<Rightarrow> skip w)"

definition close_browser_step :: "BrowserSession \<Rightarrow> playwright \<Rightarrow> (string + unit) \<times> playwright" where
  "close_browser_step session w =
     (case browser session of
        Some b \<Rightarrow> if browser_isConnected w b then browser_close b w else skip w
      | None \<Rightarrow> skip w)"

definition cleanupSession :: "string \<Rightarrow> manager \<Rightarrow> manager" where
  "cleanupSession sessionId m =
     (case sessions m sessionId of
        None \<Rightarrow> m
      | Some session \<Rightarrow>
          (let w1 = catching (''Error closing page for session '' @ sessionId @ '':'')
                      (close_page_step session) (pw m);
               w2 = catching (''Error closing context for session '' @ sessionId @ '':'')
                      (close_context_step session) w1;
               w3 = catching (''Error closing browser for session '' @ sessionId @ '':'')
                      (close_browser_step session) w2
           in m\<lparr>sessions := (sessions m)(sessionId := None), pw := w3\<rparr>))"

text \<open>The close calls a session's teardown makes when every guard holds.\<close>

definition attempts :: "playwright \<Rightarrow> BrowserSession \<Rightarrow> call list" where
  "attempts w session =
     (case page session of Some p \<Rightarrow> if p \<in> closed w then [] else [PageClose p] | None \<Rightarrow> [])
     @ (case bcontext session of Some c \<Rightarrow> [ContextClose c] | None \<Rightarrow> [])
     @ (case browser session of Some b \<Rightarrow> if b \<in> connected w then [BrowserClose b] else [] | None \<Rightarrow> [])"

text \<open>The diagnostic lines of a teardown: one for each attempted close that throws.\<close>

definition diagnostics :: "string \<Rightarrow> playwright \<Rightarrow> BrowserSession \<Rightarrow> string list" where
  "diagnostics sessionId w session =
     (case page session of
        Some p \<Rightarrow> if p \<notin> closed w \<and> PageClose p \<in> throwing w
                  then [''Error closing page for session '' @ sessionId @ '': page.close failed'']
                  else []
      | None \<Rightarrow> [])
     @ (case bcontext session of
          Some c \<Rightarrow> if ContextClose c \<in> throwing w
                    then [''Error closing context for session '' @ sessionId @ '': context.close failed'']
                    else []
        | None \<Rightarrow> [])
     @ (case browser session of
          Some b \<Rightarrow> if b \<in> connected w \<and> BrowserClose b \<in> throwing w
                    then [''Error closing browser for session '' @ sessionId @ '': browser.close failed'']
                    else []
        | None \<Rightarrow> [])"

text \<open>A session with all three handles live, whose page and context closes throw.\<close>

definition demo_session :: BrowserSession where
  "demo_session = \<lparr>browser = Some 3, bcontext = Some 2, page = Some 1,
                    userDataDir = ''d/s'', storageStatePath = ''t/s-state.json''\<rparr>"

definition demo_manager :: manager where
  "demo_manager =
     \<lparr>sessions = [''s'' \<mapsto> demo_session], sessionsDir = ''d'', storageStatesDir = ''t'',
      pw = \<lparr>calls = [], throwing = {PageClose 1, ContextClose 2}, connected = {3},
            closed = {}, fresh = 4, errlog = []\<rparr>\<rparr>"

subsection \<open>ensureBrowser between its suspension points\<close>

text \<open>
  \<^verbatim>\<open>ensureBrowser\<close> is an \<^verbatim>\<open>async\<close> function with two \<^verbatim>\<open>await\<close>s: on \<^verbatim>\<open>ensureSession\<close> and on
  \<^verbatim>\<open>launchPersistentContext\<close>. Other calls run while it is suspended there. A call in
  progress is at one of these points: before its first line, after the first
  \<^verbatim>\<open>await\<close> (about to test the session's browser), waiting for the launch it started,
  or returned. \<open>eb_step\<close> runs one call from one point to the next.
\<close>

datatype eb_pc =
    Entry
  | Check
  | Launching handle handle
  | Returned "string + handle option"

definition session_object :: "string \<Rightarrow> manager \<Rightarrow> BrowserSession" where
  "session_object sessionId m = fst (ensureSession sessionId m)"

fun eb_step :: "string \<Rightarrow> eb_pc \<Rightarrow> manager \<Rightarrow> eb_pc \<times> manager" where
  "eb_step sessionId Entry m = (Check, snd (ensureSession sessionId m))"
| "eb_step sessionId Check m =
     (let session = session_object sessionId m in
      if needs_launch (pw m) session then
        (case launchPersistentContext (userDataDir session) (pw m) of
           (Inl err, w) \<Rightarrow> (Returned (Inl err), m\<lparr>pw := w\<rparr>)
         | (Inr (c, b), w) \<Rightarrow> (Launching c b, m\<lparr>pw := w\<rparr>))
      else (Returned (Inr (browser session)), m))"
| "eb_step sessionId (Launching c b) m = (Returned (Inr (Some b)), store_launch sessionId c b m)"
| "eb_step sessionId (Returned r) m = (Returned r, m)"

text \<open>
  Several calls in progress, and a schedule: the list of which call runs its next
  stretch. Two calls started one right after the other without awaiting the first run
  as the schedule \<open>[0, 1, 0, 1, 0, 1]\<close>: each runs up to its first \<^verbatim>\<open>await\<close>, then each
  resumes in the order in which it was suspended.
\<close>

fun run_schedule ::
  "nat list \<Rightarrow> (string \<times> eb_pc) list \<Rightarrow> manager \<Rightarrow> (string \<times> eb_pc) list \<times> manager" where
  "run_schedule [] ts m = (ts, m)"
| "run_schedule (i # is) ts m =
     (if i < length ts then
        (case eb_step (fst (ts ! i)) (snd (ts ! i)) m of
           (pc', m') \<Rightarrow> run_schedule is (ts[i := (fst (ts ! i), pc')]) m')
      else run_schedule is ts m)"

definition empty_manager :: manager where
  "empty_manager =
     \<lparr>sessions = Map.empty, sessionsDir = ''d'', storageStatesDir = ''t'',
      pw = \<lparr>calls = [], throwing = {}, connected = {}, closed = {}, fresh = 0, errlog = []\<rparr>\<rparr>"

section \<open>Fragments as syntax trees\<close>

text \<open>
  A fragment is parsed by Babel into a tree, visited, and printed again. The trees here
  are the part of Babel's node types that the two visitors of
  \<^verbatim>\<open>rewriteCodeToTrackVariables\<close> can tell apart, with enough statements around them to
  nest declarations in blocks, branches and functions. The left-hand side of an
  assignment and the \<^verbatim>\<open>id\<close> of a declarator are nodes like any other: an identifier, a
  member expression, or a destructuring pattern (written with the names it binds).

  Function expressions, arrow functions, classes, loops and the other node types of
  Babel are not among them. What follows is about the fragments that are made of the
  forms below; of the others only what holds for every text is claimed (the fallback of
  the rewriter, the buffers and the namespaces of the executor).
\<close>

datatype expr =
    Identifier string
  | NullLiteral
  | BooleanLiteral bool
  | NumericLiteral int
  | StringLiteral string
  | MemberExpression expr string
  | CallExpression expr "expr list"
  | AwaitExpression expr
  | AssignmentExpression string expr expr
  | ObjectPattern "string list"
  | ArrayPattern "string list"

datatype declarator = VariableDeclarator expr "expr option"

datatype kind = KindVar | KindLet | KindConst

datatype stmt =
    VariableDeclaration kind "declarator list"
  | ExpressionStatement expr
  | BlockStatement "stmt list"
  | IfStatement expr stmt "stmt option"
  | FunctionDeclaration string "string list" "stmt list"
  | ReturnStatement "expr option"
  | ThrowStatement expr

section \<open>The variable tracker\<close>

definition TRACKED_VARIABLES :: "string set" where
  "TRACKED_VARIABLES = {''page'', ''browser'', ''context'', ''sessionManager''}"

text \<open>
  The statement both visitors build: \<^verbatim>\<open>globalThis.<name> = <name>;\<close>
\<close>

definition globalAssignment :: "string \<Rightarrow> expr" where
  "globalAssignment name =
     AssignmentExpression ''='' (MemberExpression (Identifier ''globalThis'') name) (Identifier name)"

definition expressionStatement :: "string \<Rightarrow> stmt" where
  "expressionStatement name = ExpressionStatement (globalAssignment name)"

text \<open>
  The visits that match, in the order in which the traversal reaches them (a node
  before its children, children left to right). The \<^verbatim>\<open>AssignmentExpression\<close> visitor
  matches when \<^verbatim>\<open>t.isIdentifier(left) && TRACKED_VARIABLES.has(left.name)\<close>; it does not
  look at the operator. The \<^verbatim>\<open>VariableDeclarator\<close> visitor matches when the same holds
  of \<^verbatim>\<open>path.node.id\<close>.
\<close>

datatype match = Declared string | Assigned string

fun assigned :: "expr \<Rightarrow> string list" where
  "assigned (AssignmentExpression operator left right) =
     (case left of
        Identifier name \<Rightarrow> if name \<in> TRACKED_VARIABLES then [name] else []
      | _ \<Rightarrow> [])
     @ assigned left @ assigned right"
| "assigned (MemberExpression object property) = assigned object"
| "assigned (CallExpression callee arguments) = assigned callee @ concat (map assigned arguments)"
| "assigned (AwaitExpression argument) = assigned argument"
| "assigned _ = []"

fun declared :: "declarator \<Rightarrow> match list" where
  "declared (VariableDeclarator ident init) =
     (case ident of
        Identifier name \<Rightarrow> if name \<in> TRACKED_VARIABLES then [Declared name] else []
      | _ \<Rightarrow> [])
     @ map Assigned (assigned ident)
     @ (case init of None \<Rightarrow> [] | Some e \<Rightarrow> map Assigned (assigned e))"

fun name_of :: "match \<Rightarrow> string" where
  "name_of (Declared n) = n"
| "name_of (Assigned n) = n"

fun declared_names :: "match list \<Rightarrow> string list" where
  "declared_names [] = []"
| "declared_names (Declared n # ms) = n # declared_names ms"
| "declared_names (Assigned n # ms) = declared_names ms"

fun assigned_names :: "match list \<Rightarrow> string list" where
  "assigned_names [] = []"
| "assigned_names (Declared n # ms) = assigned_names ms"
| "assigned_names (Assigned n # ms) = n # assigned_names ms"

text \<open>
  Where a match puts its statement. An assignment's target is
  \<^verbatim>\<open>path.getStatementParent()\<close>: the nearest node, going up from the match, that is a
  statement and an element of a statement list (a branch of an \<^verbatim>\<open>if\<close> that is not a block
  is a statement but not an element of a list, so the search goes on to the \<^verbatim>\<open>if\<close>).
  A declarator's target is \<^verbatim>\<open>path.getFunctionParent() || path.getStatementParent()\<close>:
  the nearest enclosing function when there is one.

  \<open>pending infun s\<close> lists the matches below the statement \<open>s\<close> whose target is not
  below \<open>s\<close>: they are still looking for it when the search leaves \<open>s\<close>. Inside a
  function (\<open>infun\<close>) the declarators of a nested statement list keep going up to the
  function; outside, a statement list keeps all the matches of its elements.
  \<open>escaping body\<close> are the declared names that leave a function's body this way.
\<close>

fun pending :: "bool \<Rightarrow> stmt \<Rightarrow> match list"
  and escaping :: "stmt list \<Rightarrow> string list" where
  "pending infun (VariableDeclaration k ds) = concat (map declared ds)"
| "pending infun (ExpressionStatement e) = map Assigned (assigned e)"
| "pending infun (BlockStatement body) = (if infun then map Declared (escaping body) else [])"
| "pending infun (IfStatement test consequent alternate) =
     map Assigned (assigned test) @ pending infun consequent
     @ (case alternate of None \<Rightarrow> [] | Some s \<Rightarrow> pending infun s)"
| "pending infun (FunctionDeclaration f params body) = []"
| "pending infun (ReturnStatement argument) =
     (case argument of None \<Rightarrow> [] | Some e \<Rightarrow> map Assigned (assigned e))"
| "pending infun (ThrowStatement argument) = map Assigned (assigned argument)"
| "escaping [] = []"
| "escaping (s # rest) = declared_names (pending True s) @ escaping rest"

fun function_escaping :: "stmt \<Rightarrow> string list" where
  "function_escaping (FunctionDeclaration f params body) = escaping body"
| "function_escaping _ = []"

text \<open>
  \<^verbatim>\<open>parent.insertAfter(expressionStatement)\<close> on an element of a statement list puts the
  new statement right behind that element. Every match does so when it is visited, so
  of the statements behind one target the latest match comes first: the names behind a
  list element \<open>s\<close> are the matches with target \<open>s\<close>, reversed.

  On a statement that is not an element of a list, Babel's \<^verbatim>\<open>insertAfter\<close> first
  replaces the statement by a block holding it. Only a function declaration standing
  as the branch of an \<^verbatim>\<open>if\<close> can be such a target (\<open>wrapped\<close>); the module grammar the
  fragment is parsed with does not produce one.
\<close>

definition insertAfter :: "bool \<Rightarrow> stmt \<Rightarrow> string list" where
  "insertAfter infun s =
     rev (function_escaping s
          @ (if infun then assigned_names (pending infun s) else map name_of (pending infun s)))"

definition wrapped :: "stmt \<Rightarrow> stmt \<Rightarrow> stmt" where
  "wrapped s s' =
     (if function_escaping s = [] then s'
      else BlockStatement (s' # map expressionStatement (rev (function_escaping s))))"

fun traverse_stmt :: "bool \<Rightarrow> stmt \<Rightarrow> stmt"
  and traverse_list :: "bool \<Rightarrow> stmt list \<Rightarrow> stmt list" where
  "traverse_stmt infun (BlockStatement body) = BlockStatement (traverse_list infun body)"
| "traverse_stmt infun (IfStatement test consequent alternate) =
     IfStatement test (wrapped consequent (traverse_stmt infun consequent))
       (case alternate of None \<Rightarrow> None | Some s \<Rightarrow> Some (wrapped s (traverse_stmt infun s)))"
| "traverse_stmt infun (FunctionDeclaration f params body) =
     FunctionDeclaration f params (traverse_list True body)"
| "traverse_stmt infun (VariableDeclaration k ds) = VariableDeclaration k ds"
| "traverse_stmt infun (ExpressionStatement e) = ExpressionStatement e"
| "traverse_stmt infun (ReturnStatement argument) = ReturnStatement argument"
| "traverse_stmt infun (ThrowStatement argument) = ThrowStatement argument"
| "traverse_list infun [] = []"
| "traverse_list infun (s # rest) =
     traverse_stmt infun s # map expressionStatement (insertAfter infun s) @ traverse_list infun rest"

text \<open>The traversal of a whole fragment: the statement list of the \<^verbatim>\<open>Program\<close> node.\<close>

definition traverse :: "stmt list \<Rightarrow> stmt list" where
  "traverse program = traverse_list False program"

text \<open>
  Babel's parser and generator are not part of the repository: they are parameters.
  Either can throw (\<open>Inl\<close> the error). The parser stands for \<^verbatim>\<open>parse\<close> called with the
  options of the source: module syntax, \<^verbatim>\<open>await\<close> allowed outside a function, and no
  \<^verbatim>\<open>allowReturnOutsideFunction\<close>, so that Babel throws on a fragment with a \<^verbatim>\<open>return\<close>
  statement of its own.
\<close>

record babel =
  parse :: "string \<Rightarrow> string + stmt list"
  generate :: "stmt list \<Rightarrow> string + string"

text \<open>
  \<^verbatim>\<open>rewriteCodeToTrackVariables\<close>: the whole body is one \<^verbatim>\<open>try\<close>; the \<^verbatim>\<open>catch\<close> writes
  \<^verbatim>\<open>console.error("AST parsing/rewriting failed:", error)\<close> and returns \<^verbatim>\<open>code\<close>. The result
  is the returned text with the diagnostic lines written.
\<close>

definition rewriteCodeToTrackVariables :: "babel \<Rightarrow> string \<Rightarrow> string \<times> string list" where
  "rewriteCodeToTrackVariables bb code =
     (case parse bb code of
        Inl err \<Rightarrow> (code, [''AST parsing/rewriting failed: '' @ err])
      | Inr ast \<Rightarrow>
          (case generate bb (traverse ast) of
             Inl err \<Rightarrow> (code, [''AST parsing/rewriting failed: '' @ err])
           | Inr out \<Rightarrow> (out, [])))"

subsection \<open>Vocabulary for the tracker's properties\<close>

text \<open>All matches of a fragment, whatever their target.\<close>

fun sites :: "stmt \<Rightarrow> match list"
  and sites_list :: "stmt list \<Rightarrow> match list" where
  "sites (VariableDeclaration k ds) = concat (map declared ds)"
| "sites (ExpressionStatement e) = map Assigned (assigned e)"
| "sites (BlockStatement body) = sites_list body"
| "sites (IfStatement test consequent alternate) =
     map Assigned (assigned test) @ sites consequent
     @ (case alternate of None \<Rightarrow> [] | Some s \<Rightarrow> sites s)"
| "sites (FunctionDeclaration f params body) = sites_list body"
| "sites (ReturnStatement argument) =
     (case argument of None \<Rightarrow> [] | Some e \<Rightarrow> map Assigned (assigned e))"
| "sites (ThrowStatement argument) = map Assigned (assigned argument)"
| "sites_list [] = []"
| "sites_list (s # rest) = sites s @ sites_list rest"

text \<open>
  Every name a fragment declares or assigns, through a bare identifier or through a
  destructuring pattern.
\<close>

fun bound_names :: "expr \<Rightarrow> string list" where
  "bound_names (Identifier name) = [name]"
| "bound_names (ObjectPattern names) = names"
| "bound_names (ArrayPattern names) = names"
| "bound_names _ = []"

fun written :: "expr \<Rightarrow> string list" where
  "written (AssignmentExpression operator left right) =
     bound_names left @ written left @ written right"
| "written (MemberExpression object property) = written object"
| "written (CallExpression callee arguments) = written callee @ concat (map written arguments)"
| "written (AwaitExpression argument) = written argument"
| "written _ = []"

fun written_declarator :: "declarator \<Rightarrow> string list" where
  "written_declarator (VariableDeclarator ident init) =
     bound_names ident @ written ident @ (case init of None \<Rightarrow> [] | Some e \<Rightarrow> written e)"

fun touched :: "stmt \<Rightarrow> string list"
  and touched_list :: "stmt list \<Rightarrow> string list" where
  "touched (VariableDeclaration k ds) = concat (map written_declarator ds)"
| "touched (ExpressionStatement e) = written e"
| "touched (BlockStatement body) = touched_list body"
| "touched (IfStatement test consequent alternate) =
     written test @ touched consequent @ (case alternate of None \<Rightarrow> [] | Some s \<Rightarrow> touched s)"
| "touched (FunctionDeclaration f params body) = touched_list body"
| "touched (ReturnStatement argument) = (case argument of None \<Rightarrow> [] | Some e \<Rightarrow> written e)"
| "touched (ThrowStatement argument) = written argument"
| "touched_list [] = []"
| "touched_list (s # rest) = touched s @ touched_list rest"

text \<open>The statements the tracker adds.\<close>

definition is_mirror :: "stmt \<Rightarrow> bool" where
  "is_mirror s = (s \<in> expressionStatement ` TRACKED_VARIABLES)"

text \<open>A fragment with the tracker's statements taken out of its statement lists.\<close>

fun unmirror :: "stmt \<Rightarrow> stmt"
  and unmirror_list :: "stmt list \<Rightarrow> stmt list" where
  "unmirror (BlockStatement body) = BlockStatement (unmirror_list body)"
| "unmirror (IfStatement test consequent alternate) =
     IfStatement test (unmirror consequent)
       (case alternate of None \<Rightarrow> None | Some s \<Rightarrow> Some (unmirror s))"
| "unmirror (FunctionDeclaration f params body) = FunctionDeclaration f params (unmirror_list body)"
| "unmirror (VariableDeclaration k ds) = VariableDeclaration k ds"
| "unmirror (ExpressionStatement e) = ExpressionStatement e"
| "unmirror (ReturnStatement argument) = ReturnStatement argument"
| "unmirror (ThrowStatement argument) = ThrowStatement argument"
| "unmirror_list [] = []"
| "unmirror_list (s # rest) =
     (if is_mirror s then unmirror_list rest else unmirror s # unmirror_list rest)"

text \<open>
  What the module grammar guarantees: a function declaration is an element of a
  statement list, never the bare branch of an \<^verbatim>\<open>if\<close>.
\<close>

fun is_function :: "stmt \<Rightarrow> bool" where
  "is_function (FunctionDeclaration f params body) = True"
| "is_function _ = False"

fun block_level :: "stmt \<Rightarrow> bool"
  and block_level_list :: "stmt list \<Rightarrow> bool" where
  "block_level (BlockStatement body) = block_level_list body"
| "block_level (IfStatement test consequent alternate) =
     (\<not> is_function consequent \<and> block_level consequent
      \<and> (case alternate of None \<Rightarrow> True | Some s \<Rightarrow> \<not> is_function s \<and> block_level s))"
| "block_level (FunctionDeclaration f params body) = block_level_list body"
| "block_level (VariableDeclaration k ds) = True"
| "block_level (ExpressionStatement e) = True"
| "block_level (ReturnStatement argument) = True"
| "block_level (ThrowStatement argument) = True"
| "block_level_list [] = True"
| "block_level_list (s # rest) = (block_level s \<and> block_level_list rest)"

text \<open>
  The placement rule in the words of the specification, for the declarations of a
  fragment without functions: the statement goes behind ``the nearest enclosing
  top-level statement'', that is, behind the element of the fragment's own statement
  list that holds the declaration.
\<close>

definition spec_after_top_level :: "stmt list \<Rightarrow> stmt list" where
  "spec_after_top_level program =
     concat (map (\<lambda>s. s # map expressionStatement (rev (declared_names (sites s)))) program)"

text \<open>
  A \<^verbatim>\<open>return\<close> statement of the fragment itself: in its statement list or in a block or
  branch below it, not in a function the fragment declares. It is the \<^verbatim>\<open>return\<close> of the
  wrapper when the fragment is the wrapper's body.
\<close>

fun has_return :: "stmt \<Rightarrow> bool"
  and has_return_list :: "stmt list \<Rightarrow> bool" where
  "has_return (ReturnStatement argument) = True"
| "has_return (BlockStatement body) = has_return_list body"
| "has_return (IfStatement test consequent alternate) =
     (has_return consequent \<or> (case alternate of None \<Rightarrow> False | Some s \<Rightarrow> has_return s))"
| "has_return (FunctionDeclaration f params body) = False"
| "has_return (VariableDeclaration k ds) = False"
| "has_return (ExpressionStatement e) = False"
| "has_return (ThrowStatement argument) = False"
| "has_return_list [] = False"
| "has_return_list (s # rest) = (has_return s \<or> has_return_list rest)"

text \<open>Example fragments.\<close>

definition const_page :: stmt where
  "const_page = VariableDeclaration KindConst
     [VariableDeclarator (Identifier ''page'') (Some (Identifier ''other''))]"

definition nested_declaration :: "stmt list" where
  "nested_declaration = [BlockStatement [const_page]]"

definition destructured :: "stmt list" where
  "destructured =
     [VariableDeclaration KindConst [VariableDeclarator (ObjectPattern [''page'']) (Some (Identifier ''obj''))],
      VariableDeclaration KindLet [VariableDeclarator (ArrayPattern [''browser'']) (Some (Identifier ''arr''))],
      ExpressionStatement
        (AssignmentExpression ''='' (MemberExpression (Identifier ''holder'') ''context'')
           (Identifier ''x''))]"

definition untracked :: "stmt list" where
  "untracked =
     [VariableDeclaration KindConst [VariableDeclarator (Identifier ''title'') (Some (StringLiteral ''a''))],
      IfStatement (Identifier ''title'')
        (ExpressionStatement (AssignmentExpression ''='' (Identifier ''count'') (NumericLiteral 1)))
        None]"

definition mixed :: "stmt list" where
  "mixed =
     [FunctionDeclaration ''f'' []
        [const_page,
         ExpressionStatement (AssignmentExpression ''+='' (Identifier ''browser'') (NumericLiteral 1))],
      IfStatement (Identifier ''c'')
        (ExpressionStatement (AssignmentExpression ''='' (Identifier ''context'') NullLiteral))
        None]"

definition echo_babel :: babel where
  "echo_babel = \<lparr>parse = (\<lambda>code. if code = ''x'' then Inr untracked
                                  else if code = ''d'' then Inr destructured
                                  else Inl ''SyntaxError''),
                generate = (\<lambda>ast. if ast = untracked then Inr ''x;''
                                   else if ast = destructured then Inr ''d;''
                                   else Inl ''unprintable'')\<rparr>"

section \<open>The evaluation context\<close>

text \<open>
  What a fragment can hold in a variable, as far as the executor tells values apart:
  primitives, the Playwright objects the resource pool hands out (by handle), the
  context's own global object, the \<^verbatim>\<open>sessionConsole\<close> object that \<^verbatim>\<open>initializeContext\<close>
  builds for a session, the session manager, the other capabilities put into the
  context by name and the built-ins of the language (opaque, by name), a function
  declared by a fragment, and errors. An error object is either one of the host's realm
  (\<open>HostError\<close>, with its message and stack: what the executor itself, the resource pool,
  Playwright or the compilation of a script throws) or one made inside the context
  (\<open>ErrorObject\<close>, with its name and message: what the engine throws while it runs a
  fragment). Only the first kind is an \<^verbatim>\<open>instanceof Error\<close> for the executor, whose \<^verbatim>\<open>Error\<close>
  is the host's. Numbers are the integers that a double holds exactly, \<^verbatim>\<open>NaN\<close> and
  \<^verbatim>\<open>Infinity\<close>.
\<close>

datatype jsval =
    Undefined
  | Null
  | Bool bool
  | Num int
  | NaN
  | Infinity
  | Str string
  | Handle handle
  | GlobalThis
  | SessionConsole string
  | SessionManager
  | Host string
  | Closure
  | HostError string string
  | ErrorObject string string

fun truthy :: "jsval \<Rightarrow> bool" where
  "truthy Undefined = False"
| "truthy Null = False"
| "truthy (Bool b) = b"
| "truthy (Num n) = (n \<noteq> 0)"
| "truthy NaN = False"
| "truthy (Str s) = (s \<noteq> [])"
| "truthy _ = True"

text \<open>
  A \<^verbatim>\<open>vm.Context\<close>: the properties of its global object, and the \<^verbatim>\<open>const\<close> declarations
  made at the top level of a script run in it (they are not properties).
\<close>

record vm_Context =
  properties :: "string \<rightharpoonup> jsval"
  lexicals :: "string \<rightharpoonup> jsval"

definition resolve :: "vm_Context \<Rightarrow> string \<Rightarrow> jsval option" where
  "resolve c x = (case lexicals c x of Some v \<Rightarrow> Some v | None \<Rightarrow> properties c x)"

text \<open>
  What the evaluation of a fragment does, as the executor sees it: the calls it makes
  to a session console and the \<^verbatim>\<open>console\<close> events its pages emit, in order; how the
  wrapper's promise settles; and the context it leaves. \<open>None\<close>: the promise never
  settles. The number is a clock of the world outside, so that the same text can
  behave differently on another run.
\<close>

datatype level = LOG | WARN | ERROR | INFO | DEBUG

datatype effect =
    SessionLog string level "string list"
  | PageConsole handle string

datatype completion = Resolved jsval | Rejected jsval

type_synonym vm =
  "string \<Rightarrow> vm_Context \<Rightarrow> nat \<Rightarrow> (effect list \<times> completion \<times> vm_Context \<times> nat) option"

section \<open>MultiExecutor\<close>

record ExecutionResult =
  success :: bool
  result :: "jsval option"
  error :: "string option"
  stack :: "string option"
  browserConsoleLogs :: "string list"
  sessionConsoleLogs :: "string list"

text \<open>
  \<open>consoleHandlers\<close> are the listeners \<^verbatim>\<open>registerConsoleHandler\<close> has put on pages with
  \<^verbatim>\<open>page.on("console", ...)\<close>: the page, and the session id the listener closes over.
  \<open>clock\<close> is the clock of the world outside.
\<close>

record executor =
  contexts :: "string \<rightharpoonup> vm_Context"
  consoleMessages :: "string \<rightharpoonup> string list"
  sessionConsoleMessages :: "string \<rightharpoonup> string list"
  consoleHandlersRegistered :: "string set"
  consoleHandlers :: "handle \<rightharpoonup> string"
  sessionManager :: manager
  clock :: nat

text \<open>\<^verbatim>\<open>map.get(sessionId) || []\<close>\<close>

definition buffer :: "(string \<rightharpoonup> string list) \<Rightarrow> string \<Rightarrow> string list" where
  "buffer m sessionId = (case m sessionId of None \<Rightarrow> [] | Some logs \<Rightarrow> logs)"

fun label :: "level \<Rightarrow> string" where
  "label LOG = ''[LOG] ''"
| "label WARN = ''[WARN] ''"
| "label ERROR = ''[ERROR] ''"
| "label INFO = ''[INFO] ''"
| "label DEBUG = ''[DEBUG] ''"

text \<open>\<^verbatim>\<open>args.map(...).join(" ")\<close>, on the texts of the arguments.\<close>

fun join :: "string list \<Rightarrow> string" where
  "join [] = []"
| "join [a] = a"
| "join (a # b # rest) = a @ '' '' @ join (b # rest)"

text \<open>
  A method of \<^verbatim>\<open>sessionConsole\<close>: it appends one line to the session's buffer of session
  console messages.
\<close>

definition sessionConsole :: "string \<Rightarrow> level \<Rightarrow> string list \<Rightarrow> executor \<Rightarrow> executor" where
  "sessionConsole sessionId lv args ex =
     (let message = join args;
          logs = buffer (sessionConsoleMessages ex) sessionId
      in ex\<lparr>sessionConsoleMessages :=
               (sessionConsoleMessages ex)(sessionId \<mapsto> logs @ [label lv @ message])\<rparr>)"

text \<open>The listener of \<^verbatim>\<open>registerConsoleHandler\<close>, run for a \<^verbatim>\<open>console\<close> event of a page.\<close>

definition on_console :: "handle \<Rightarrow> string \<Rightarrow> executor \<Rightarrow> executor" where
  "on_console p text ex =
     (case consoleHandlers ex p of
        None \<Rightarrow> ex
      | Some sessionId \<Rightarrow>
          (let logs = buffer (consoleMessages ex) sessionId
           in ex\<lparr>consoleMessages := (consoleMessages ex)(sessionId \<mapsto> logs @ [text])\<rparr>))"

fun apply_effect :: "effect \<Rightarrow> executor \<Rightarrow> executor" where
  "apply_effect (SessionLog sessionId lv args) ex = sessionConsole sessionId lv args ex"
| "apply_effect (PageConsole p text) ex = on_console p text ex"

definition contextObject :: "string \<Rightarrow> (string \<rightharpoonup> jsval)" where
  "contextObject sessionId =
     [''console'' \<mapsto> SessionConsole sessionId,
      ''setTimeout'' \<mapsto> Host ''setTimeout'',
      ''setInterval'' \<mapsto> Host ''setInterval'',
      ''clearTimeout'' \<mapsto> Host ''clearTimeout'',
      ''clearInterval'' \<mapsto> Host ''clearInterval'',
      ''Buffer'' \<mapsto> Host ''Buffer'',
      ''process'' \<mapsto> Host ''process'',
      ''require'' \<mapsto> Host ''require'',
      ''URL'' \<mapsto> Host ''URL'',
      ''URLSearchParams'' \<mapsto> Host ''URLSearchParams'',
      ''playwright'' \<mapsto> Host ''playwright'',
      ''chromium'' \<mapsto> Host ''chromium'',
      ''firefox'' \<mapsto> Host ''firefox'',
      ''webkit'' \<mapsto> Host ''webkit'',
      ''devices'' \<mapsto> Host ''devices'',
      ''sessionManager'' \<mapsto> SessionManager,
      ''sessionId'' \<mapsto> Str sessionId,
      ''sharedState'' \<mapsto> Host (''sharedState of '' @ sessionId),
      ''assert'' \<mapsto> Host ''assert'']"

text \<open>
  \<^verbatim>\<open>vm.createContext(contextObject)\<close>: the object becomes the global object of a new
  context. The context has the built-ins of the language as well (the properties of the
  global object that ECMAScript lists, with \<^verbatim>\<open>Intl\<close> and \<^verbatim>\<open>WebAssembly\<close>): functions and
  objects that are opaque here, and the values \<^verbatim>\<open>globalThis\<close>, \<^verbatim>\<open>undefined\<close>, \<^verbatim>\<open>NaN\<close> and
  \<^verbatim>\<open>Infinity\<close>, of which the last three cannot be written.
\<close>

definition intrinsics :: "string list" where
  "intrinsics =
     [''eval'', ''isFinite'', ''isNaN'', ''parseFloat'', ''parseInt'', ''decodeURI'',
      ''decodeURIComponent'', ''encodeURI'', ''encodeURIComponent'', ''escape'', ''unescape'',
      ''AggregateError'', ''Array'', ''ArrayBuffer'', ''BigInt'', ''BigInt64Array'',
      ''BigUint64Array'', ''Boolean'', ''DataView'', ''Date'', ''Error'', ''EvalError'',
      ''FinalizationRegistry'', ''Float32Array'', ''Float64Array'', ''Function'', ''Int8Array'',
      ''Int16Array'', ''Int32Array'', ''Map'', ''Number'', ''Object'', ''Promise'', ''Proxy'',
      ''RangeError'', ''ReferenceError'', ''RegExp'', ''Set'', ''SharedArrayBuffer'', ''String'',
      ''Symbol'', ''SyntaxError'', ''TypeError'', ''Uint8Array'', ''Uint8ClampedArray'',
      ''Uint16Array'', ''Uint32Array'', ''URIError'', ''WeakMap'', ''WeakRef'', ''WeakSet'',
      ''Atomics'', ''JSON'', ''Math'', ''Reflect'', ''Intl'', ''WebAssembly'']"

definition readonly :: "string set" where
  "readonly = {''undefined'', ''NaN'', ''Infinity''}"

definition createContext :: "(string \<rightharpoonup> jsval) \<Rightarrow> vm_Context" where
  "createContext obj =
     \<lparr>properties =
        (map_of (map (\<lambda>name. (name, Host name)) intrinsics) ++ obj)
          (''globalThis'' \<mapsto> GlobalThis, ''undefined'' \<mapsto> Undefined,
           ''NaN'' \<mapsto> NaN, ''Infinity'' \<mapsto> Infinity),
      lexicals = Map.empty\<rparr>"

text \<open>
  \<^verbatim>\<open>initializeContext\<close>; its last step runs
  \<^verbatim>\<open>const global = globalThis; const self = globalThis;\<close> in the new context.
\<close>

definition initializeContext :: "string \<Rightarrow> executor \<Rightarrow> executor" where
  "initializeContext sessionId ex =
     (let c = createContext (contextObject sessionId);
          g = (case resolve c ''globalThis'' of None \<Rightarrow> Undefined | Some v \<Rightarrow> v)
      in ex\<lparr>contexts := (contexts ex)(sessionId \<mapsto> c\<lparr>lexicals := [''global'' \<mapsto> g, ''self'' \<mapsto> g]\<rparr>),
             consoleMessages := (consoleMessages ex)(sessionId \<mapsto> []),
             sessionConsoleMessages := (sessionConsoleMessages ex)(sessionId \<mapsto> [])\<rparr>)"

text \<open>\<^verbatim>\<open>typeof x !== 'undefined' ? x : null\<close>, run in the context.\<close>

definition probe :: "vm_Context \<Rightarrow> string \<Rightarrow> jsval" where
  "probe c x = (case resolve c x of
                  None \<Rightarrow> Null
                | Some v \<Rightarrow> if v = Undefined then Null else v)"

definition instance_of :: "handle option \<Rightarrow> jsval" where
  "instance_of h = (case h of None \<Rightarrow> Null | Some i \<Rightarrow> Handle i)"

text \<open>
  One statement \<^verbatim>\<open>globalThis.x = x;\<close> of the script that \<^verbatim>\<open>ensurePlaywrightInitialized\<close>
  runs in the context after it has set the three properties from outside.
\<close>

definition publish :: "string \<Rightarrow> vm_Context \<Rightarrow> string + vm_Context" where
  "publish x c =
     (case resolve c ''globalThis'' of
        None \<Rightarrow> Inl ''globalThis is not defined''
      | Some target \<Rightarrow>
          (case resolve c x of
             None \<Rightarrow> Inl (x @ '' is not defined'')
           | Some v \<Rightarrow>
               if target = GlobalThis then Inr (c\<lparr>properties := (properties c)(x \<mapsto> v)\<rparr>)
               else if target = Undefined \<or> target = Null
                 then Inl ''Cannot set properties of undefined''
               else Inr c))"

definition registerConsoleHandler ::
  "string \<Rightarrow> handle option \<Rightarrow> executor \<Rightarrow> string + executor" where
  "registerConsoleHandler sessionId pageInstance ex =
     (if sessionId \<notin> consoleHandlersRegistered ex then
        (case pageInstance of
           None \<Rightarrow> Inl ''Cannot read properties of null''
         | Some p \<Rightarrow>
             Inr (ex\<lparr>consoleHandlers := (consoleHandlers ex)(p \<mapsto> sessionId),
                      consoleHandlersRegistered := insert sessionId (consoleHandlersRegistered ex)\<rparr>))
      else Inr ex)"

definition needs_binding :: "vm_Context \<Rightarrow> bool" where
  "needs_binding c =
     (\<not> truthy (probe c ''browser'') \<or> \<not> truthy (probe c ''context'') \<or> \<not> truthy (probe c ''page''))"

definition bind_instances ::
  "string \<Rightarrow> vm_Context \<Rightarrow> handle option \<Rightarrow> handle option \<Rightarrow> handle option
   \<Rightarrow> executor \<Rightarrow> (string + unit) \<times> executor" where
  "bind_instances sessionId c browserInstance contextInstance pageInstance ex =
     (let c1 = c\<lparr>properties := (properties c)(''browser'' \<mapsto> instance_of browserInstance,
                                                 ''context'' \<mapsto> instance_of contextInstance,
                                                 ''page'' \<mapsto> instance_of pageInstance)\<rparr>;
          ex1 = ex\<lparr>contexts := (contexts ex)(sessionId \<mapsto> c1)\<rparr>
      in case publish ''browser'' c1 of
           Inl err \<Rightarrow> (Inl err, ex1)
         | Inr c2 \<Rightarrow>
             (case publish ''context'' c2 of
                Inl err \<Rightarrow> (Inl err, ex1\<lparr>contexts := (contexts ex)(sessionId \<mapsto> c2)\<rparr>)
              | Inr c3 \<Rightarrow>
                  (case publish ''page'' c3 of
                     Inl err \<Rightarrow> (Inl err, ex1\<lparr>contexts := (contexts ex)(sessionId \<mapsto> c3)\<rparr>)
                   | Inr c4 \<Rightarrow>
                       (case registerConsoleHandler sessionId pageInstance
                               (ex1\<lparr>contexts := (contexts ex)(sessionId \<mapsto> c4)\<rparr>) of
                          Inl err \<Rightarrow> (Inl err, ex1\<lparr>contexts := (contexts ex)(sessionId \<mapsto> c4)\<rparr>)
                        | Inr ex2 \<Rightarrow> (Inr (), ex2)))))"

definition ensurePlaywrightInitialized :: "string \<Rightarrow> executor \<Rightarrow> (string + unit) \<times> executor" where
  "ensurePlaywrightInitialized sessionId ex =
     (case contexts ex sessionId of
        None \<Rightarrow> (Inl (''Session '' @ sessionId @ '' not initialized''), ex)
      | Some c \<Rightarrow>
          if needs_binding c then
            (case ensureBrowser sessionId (sessionManager ex) of
               (Inl err, m1) \<Rightarrow> (Inl err, ex\<lparr>sessionManager := m1\<rparr>)
             | (Inr browserInstance, m1) \<Rightarrow>
                 (case ensureContext sessionId m1 of
                    (Inl err, m2) \<Rightarrow> (Inl err, ex\<lparr>sessionManager := m2\<rparr>)
                  | (Inr contextInstance, m2) \<Rightarrow>
                      (case ensurePage sessionId m2 of
                         (Inl err, m3) \<Rightarrow> (Inl err, ex\<lparr>sessionManager := m3\<rparr>)
                       | (Inr pageInstance, m3) \<Rightarrow>
                           bind_instances sessionId c browserInstance contextInstance pageInstance
                             (ex\<lparr>sessionManager := m3\<rparr>))))
          else (Inr (), ex))"

text \<open>
  The two ways \<^verbatim>\<open>execute\<close> ends: both copy the two buffers into the result and put
  empty arrays in their place.
\<close>

definition drain :: "string \<Rightarrow> executor \<Rightarrow> executor" where
  "drain sessionId ex =
     ex\<lparr>consoleMessages := (consoleMessages ex)(sessionId \<mapsto> []),
        sessionConsoleMessages := (sessionConsoleMessages ex)(sessionId \<mapsto> [])\<rparr>"

definition succeeded :: "string \<Rightarrow> jsval \<Rightarrow> executor \<Rightarrow> ExecutionResult \<times> executor" where
  "succeeded sessionId finalResult ex =
     (\<lparr>success = True,
       result = (if finalResult \<noteq> Undefined then Some finalResult else None),
       error = None,
       stack = None,
       browserConsoleLogs = buffer (consoleMessages ex) sessionId,
       sessionConsoleLogs = buffer (sessionConsoleMessages ex) sessionId\<rparr>,
      drain sessionId ex)"

text \<open>\<^verbatim>\<open>String(error)\<close> for a thrown value that is not an \<^verbatim>\<open>Error\<close>.\<close>

fun digits :: "nat \<Rightarrow> nat \<Rightarrow> string" where
  "digits 0 n = []"
| "digits (Suc fuel) n =
     (if n < 10 then [''0123456789'' ! n] else digits fuel (n div 10) @ [''0123456789'' ! (n mod 10)])"

definition show_int :: "int \<Rightarrow> string" where
  "show_int i = (if i < 0 then ''-'' @ digits (Suc (nat (- i))) (nat (- i)) else digits (Suc (nat i)) (nat i))"

fun String :: "jsval \<Rightarrow> string" where
  "String Undefined = ''undefined''"
| "String Null = ''null''"
| "String (Bool b) = (if b then ''true'' else ''false'')"
| "String (Num n) = show_int n"
| "String NaN = ''NaN''"
| "String Infinity = ''Infinity''"
| "String (Str s) = s"
| "String (HostError message trace) = ''Error: '' @ message"
| "String (ErrorObject name message) = (if message = [] then name else name @ '': '' @ message)"
| "String _ = ''[object Object]''"

text \<open>
  An error of the host's realm. The text of a stack is the engine's business: what is
  kept here in its place is the error's heading. The \<^verbatim>\<open>catch\<close> of \<open>execute\<close> tests
  \<^verbatim>\<open>error instanceof Error\<close> with the host's \<^verbatim>\<open>Error\<close>: an error object made inside the
  context fails the test, and the result carries its \<^verbatim>\<open>String(error)\<close> and no stack.
\<close>

definition host_error :: "string \<Rightarrow> string \<Rightarrow> jsval" where
  "host_error name message = HostError message (name @ '': '' @ message)"

definition failed :: "string \<Rightarrow> jsval \<Rightarrow> executor \<Rightarrow> ExecutionResult \<times> executor" where
  "failed sessionId thrown ex =
     (\<lparr>success = False,
       result = None,
       error = (case thrown of HostError message trace \<Rightarrow> Some message | v \<Rightarrow> Some (String v)),
       stack = (case thrown of HostError message trace \<Rightarrow> Some trace | v \<Rightarrow> None),
       browserConsoleLogs = buffer (consoleMessages ex) sessionId,
       sessionConsoleLogs = buffer (sessionConsoleMessages ex) sessionId\<rparr>,
      drain sessionId ex)"

definition wrappedCode :: "string \<Rightarrow> string" where
  "wrappedCode rewrittenCode =
     ''(async () => {'' @ [CHR 0x0A] @ ''  '' @ rewrittenCode @ [CHR 0x0A] @ ''})()''"

text \<open>
  What comes between the two ends: the context is created when the session has none,
  the handles are bound when they are missing, the fragment is rewritten, wrapped and
  evaluated in the session's context. A diagnostic of the rewriter goes to the process
  log. An error of \<^verbatim>\<open>ensurePlaywrightInitialized\<close> is an \<^verbatim>\<open>Error\<close> caught by the same
  \<^verbatim>\<open>catch\<close> as a rejection of the fragment.
\<close>

definition log_diagnostics :: "string list \<Rightarrow> executor \<Rightarrow> executor" where
  "log_diagnostics lines ex =
     ex\<lparr>sessionManager := (sessionManager ex)\<lparr>pw := fold console_error lines (pw (sessionManager ex))\<rparr>\<rparr>"

definition evaluate ::
  "vm \<Rightarrow> string \<Rightarrow> string \<Rightarrow> executor \<Rightarrow> (completion \<times> executor) option" where
  "evaluate run sessionId code ex =
     (case contexts ex sessionId of
        None \<Rightarrow>
          Some (Rejected (host_error ''TypeError''
                            ''The \"contextifiedObject\" argument must be an vm.Context. Received undefined''),
                ex)
      | Some c \<Rightarrow>
          (case run code c (clock ex) of
             None \<Rightarrow> None
           | Some (effects, outcome, c', t) \<Rightarrow>
               Some (outcome,
                     fold apply_effect effects
                       (ex\<lparr>contexts := (contexts ex)(sessionId \<mapsto> c'), clock := t\<rparr>))))"

definition execute ::
  "vm \<Rightarrow> babel \<Rightarrow> string \<Rightarrow> string \<Rightarrow> executor \<Rightarrow> (ExecutionResult \<times> executor) option" where
  "execute run bb sessionId code ex0 =
     (let ex1 = (if contexts ex0 sessionId = None then initializeContext sessionId ex0 else ex0) in
      case ensurePlaywrightInitialized sessionId ex1 of
        (Inl err, ex2) \<Rightarrow> Some (failed sessionId (host_error ''Error'' err) ex2)
      | (Inr _, ex2) \<Rightarrow>
          (case rewriteCodeToTrackVariables bb code of
             (rewrittenCode, diagnostic) \<Rightarrow>
               (case evaluate run sessionId (wrappedCode rewrittenCode)
                       (log_diagnostics diagnostic ex2) of
                  None \<Rightarrow> None
                | Some (Resolved finalResult, ex3) \<Rightarrow> Some (succeeded sessionId finalResult ex3)
                | Some (Rejected thrown, ex3) \<Rightarrow> Some (failed sessionId thrown ex3))))"

section \<open>Evaluation of a fragment\<close>

text \<open>
  \<^verbatim>\<open>vm.runInContext(wrappedCode, context)\<close> compiles the wrapper and calls it: the
  fragment's statements are the body of an \<^verbatim>\<open>async\<close> arrow function, run in sloppy mode
  with the context's global object behind the function's own scope. This section is an
  evaluator for the trees of the embedding, with the rules of the language for scopes
  (hoisting, the temporal dead zone, \<^verbatim>\<open>const\<close>), assignment, \<^verbatim>\<open>return\<close> and \<^verbatim>\<open>throw\<close>.
  The objects of the host are opaque: what an awaited method call or a property read on
  one of them gives is a parameter (\<open>hostenv\<close>), asked with the clock. Where the evaluator
  has no rule (strict mode, a function declared in a block or a branch, calling a
  function the fragment declared, a call of a host
  method that is not awaited, a method or property of the session manager, which works
  on the resource pool, a compound assignment, a destructuring pattern, a number that
  is not a safe integer, the text of an object passed to a console method) its result
  is \<open>None\<close>, as for an evaluation that never settles: nothing is claimed about such a
  fragment.
\<close>

record hostenv =
  call_method :: "nat \<Rightarrow> jsval \<Rightarrow> string \<Rightarrow> jsval list \<Rightarrow> (jsval + jsval) \<times> (handle \<times> string) list"
  get_property :: "nat \<Rightarrow> jsval \<Rightarrow> string \<Rightarrow> jsval"

datatype binding = Uninitialized | Immutable jsval | Mutable jsval

type_synonym scope = "(string \<times> binding) list"

record frame =
  scopes :: "scope list"
  realm :: vm_Context
  effects :: "effect list"
  tick :: nat

datatype 'a outcome = Normal 'a | Throw jsval | Return jsval

type_synonym 'a step = "('a outcome \<times> frame) option"

definition andThen :: "'a step \<Rightarrow> ('a \<Rightarrow> frame \<Rightarrow> 'b step) \<Rightarrow> 'b step" where
  "andThen r k =
     (case r of
        None \<Rightarrow> None
      | Some (Normal v, st) \<Rightarrow> k v st
      | Some (Throw e, st) \<Rightarrow> Some (Throw e, st)
      | Some (Return v, st) \<Rightarrow> Some (Return v, st))"

definition js_error :: "string \<Rightarrow> string \<Rightarrow> jsval" where
  "js_error name message = ErrorObject name message"

fun find_binding :: "string \<Rightarrow> scope list \<Rightarrow> binding option" where
  "find_binding x [] = None"
| "find_binding x (sc # rest) =
     (case map_of sc x of Some b \<Rightarrow> Some b | None \<Rightarrow> find_binding x rest)"

definition set_in_scope :: "string \<Rightarrow> binding \<Rightarrow> scope \<Rightarrow> scope" where
  "set_in_scope x b sc = map (\<lambda>(k, old). if k = x then (k, b) else (k, old)) sc"

fun set_binding :: "string \<Rightarrow> binding \<Rightarrow> scope list \<Rightarrow> scope list" where
  "set_binding x b [] = []"
| "set_binding x b (sc # rest) =
     (case map_of sc x of
        Some _ \<Rightarrow> set_in_scope x b sc # rest
      | None \<Rightarrow> sc # set_binding x b rest)"

text \<open>Reading an identifier: the scopes of the function, then the context.\<close>

definition getIdentifier :: "string \<Rightarrow> frame \<Rightarrow> jsval outcome" where
  "getIdentifier x st =
     (case find_binding x (scopes st) of
        Some Uninitialized \<Rightarrow>
          Throw (js_error ''ReferenceError'' (''Cannot access '' @ x @ '' before initialization''))
      | Some (Immutable v) \<Rightarrow> Normal v
      | Some (Mutable v) \<Rightarrow> Normal v
      | None \<Rightarrow>
          (case resolve (realm st) x of
             Some v \<Rightarrow> Normal v
           | None \<Rightarrow> Throw (js_error ''ReferenceError'' (x @ '' is not defined''))))"

text \<open>
  Assigning to an identifier. A name bound nowhere becomes a property of the global
  object (sloppy mode); writing one of the global object's read-only properties changes
  nothing and does not throw (sloppy mode again).
\<close>

definition putIdentifier :: "string \<Rightarrow> jsval \<Rightarrow> frame \<Rightarrow> jsval outcome \<times> frame" where
  "putIdentifier x v st =
     (case find_binding x (scopes st) of
        Some Uninitialized \<Rightarrow>
          (Throw (js_error ''ReferenceError'' (''Cannot access '' @ x @ '' before initialization'')), st)
      | Some (Immutable _) \<Rightarrow>
          (Throw (js_error ''TypeError'' ''Assignment to constant variable.''), st)
      | Some (Mutable _) \<Rightarrow> (Normal v, st\<lparr>scopes := set_binding x (Mutable v) (scopes st)\<rparr>)
      | None \<Rightarrow>
          (case lexicals (realm st) x of
             Some _ \<Rightarrow> (Throw (js_error ''TypeError'' ''Assignment to constant variable.''), st)
           | None \<Rightarrow>
               if x \<in> readonly then (Normal v, st)
               else (Normal v,
                     st\<lparr>realm := (realm st)\<lparr>properties := (properties (realm st))(x \<mapsto> v)\<rparr>\<rparr>)))"

fun is_host :: "jsval \<Rightarrow> bool" where
  "is_host (Handle h) = True"
| "is_host (Host name) = True"
| "is_host _ = False"

definition getMember :: "hostenv \<Rightarrow> jsval \<Rightarrow> string \<Rightarrow> frame \<Rightarrow> jsval step" where
  "getMember h object property st =
     (if object = GlobalThis then
        Some (Normal (case properties (realm st) property of None \<Rightarrow> Undefined | Some v \<Rightarrow> v), st)
      else if object = Undefined \<or> object = Null then
        Some (Throw (js_error ''TypeError'' (''Cannot read properties of '' @ String object)), st)
      else if is_host object then
        Some (Normal (get_property h (tick st) object property), st\<lparr>tick := Suc (tick st)\<rparr>)
      else None)"

definition putMember :: "jsval \<Rightarrow> string \<Rightarrow> jsval \<Rightarrow> frame \<Rightarrow> jsval step" where
  "putMember object property v st =
     (if object = GlobalThis then
        (if property \<in> readonly then Some (Normal v, st)
         else Some (Normal v,
                    st\<lparr>realm := (realm st)\<lparr>properties := (properties (realm st))(property \<mapsto> v)\<rparr>\<rparr>))
      else if object = Undefined \<or> object = Null then
        Some (Throw (js_error ''TypeError'' (''Cannot set properties of '' @ String object)), st)
      else (case object of
              Bool _ \<Rightarrow> Some (Normal v, st)
            | Num _ \<Rightarrow> Some (Normal v, st)
            | Str _ \<Rightarrow> Some (Normal v, st)
            | _ \<Rightarrow> None))"

text \<open>
  The text a console method makes of one argument:
  \<^verbatim>\<open>typeof arg === "object" ? JSON.stringify(arg) : String(arg)\<close>.
\<close>

fun arg_text :: "jsval \<Rightarrow> string option" where
  "arg_text Undefined = Some ''undefined''"
| "arg_text Null = Some ''null''"
| "arg_text (Bool b) = Some (String (Bool b))"
| "arg_text (Num n) = Some (String (Num n))"
| "arg_text NaN = Some ''NaN''"
| "arg_text Infinity = Some ''Infinity''"
| "arg_text (Str s) = Some s"
| "arg_text _ = None"

fun arg_texts :: "jsval list \<Rightarrow> string list option" where
  "arg_texts [] = Some []"
| "arg_texts (v # vs) =
     (case arg_text v of
        None \<Rightarrow> None
      | Some t \<Rightarrow> (case arg_texts vs of None \<Rightarrow> None | Some ts \<Rightarrow> Some (t # ts)))"

definition console_level :: "string \<Rightarrow> level option" where
  "console_level m =
     (if m = ''log'' then Some LOG else if m = ''warn'' then Some WARN
      else if m = ''error'' then Some ERROR else if m = ''info'' then Some INFO
      else if m = ''debug'' then Some DEBUG else None)"

text \<open>
  A method call. The methods of the session console return at once. What a method of a
  host object gives is asked of the parameter, and is the value that awaiting the call
  gives (or what it throws): a call that the fragment does not await would leave a
  promise, for which the evaluator has no rule.
\<close>

definition callMethod ::
  "hostenv \<Rightarrow> bool \<Rightarrow> jsval \<Rightarrow> string \<Rightarrow> jsval list \<Rightarrow> frame \<Rightarrow> jsval step" where
  "callMethod h awaited object m args st =
     (case object of
        SessionConsole sessionId \<Rightarrow>
          (case console_level m of
             None \<Rightarrow> None
           | Some lv \<Rightarrow>
               (case arg_texts args of
                  None \<Rightarrow> None
                | Some texts \<Rightarrow>
                    Some (Normal Undefined,
                          st\<lparr>effects := effects st @ [SessionLog sessionId lv texts]\<rparr>)))
      | _ \<Rightarrow>
          if is_host object \<and> awaited then
            (case call_method h (tick st) object m args of
               (r, events) \<Rightarrow>
                 Some (case r of Inl thrown \<Rightarrow> Throw thrown | Inr v \<Rightarrow> Normal v,
                       st\<lparr>effects := effects st @ map (\<lambda>(p, text). PageConsole p text) events,
                          tick := Suc (tick st)\<rparr>))
          else None)"

fun eval :: "hostenv \<Rightarrow> expr \<Rightarrow> frame \<Rightarrow> jsval step"
  and eval_args :: "hostenv \<Rightarrow> expr list \<Rightarrow> frame \<Rightarrow> jsval list step" where
  "eval h (Identifier x) st = Some (getIdentifier x st, st)"
| "eval h NullLiteral st = Some (Normal Null, st)"
| "eval h (BooleanLiteral b) st = Some (Normal (Bool b), st)"
| "eval h (NumericLiteral n) st =
     (if \<bar>n\<bar> \<le> 9007199254740992 then Some (Normal (Num n), st) else None)"
| "eval h (StringLiteral s) st = Some (Normal (Str s), st)"
| "eval h (MemberExpression object property) st =
     andThen (eval h object st) (\<lambda>ov st1. getMember h ov property st1)"
| "eval h (AwaitExpression (CallExpression (MemberExpression object m) arguments)) st =
     andThen (eval h object st)
       (\<lambda>ov st1. andThen (eval_args h arguments st1) (\<lambda>vs st2. callMethod h True ov m vs st2))"
| "eval h (AwaitExpression (CallExpression callee arguments)) st =
     andThen (eval h callee st)
       (\<lambda>f st1. andThen (eval_args h arguments st1) (\<lambda>vs st2. callMethod h True f [] vs st2))"
| "eval h (AwaitExpression argument) st = eval h argument st"
| "eval h (AssignmentExpression operator (Identifier x) right) st =
     (if operator \<noteq> ''='' then None
      else andThen (eval h right st) (\<lambda>v st1. Some (putIdentifier x v st1)))"
| "eval h (AssignmentExpression operator (MemberExpression object property) right) st =
     (if operator \<noteq> ''='' then None
      else andThen (eval h object st)
             (\<lambda>ov st1. andThen (eval h right st1) (\<lambda>v st2. putMember ov property v st2)))"
| "eval h (AssignmentExpression operator left right) st = None"
| "eval h (CallExpression (MemberExpression object m) arguments) st =
     andThen (eval h object st)
       (\<lambda>ov st1. andThen (eval_args h arguments st1) (\<lambda>vs st2. callMethod h False ov m vs st2))"
| "eval h (CallExpression callee arguments) st =
     andThen (eval h callee st)
       (\<lambda>f st1. andThen (eval_args h arguments st1) (\<lambda>vs st2. callMethod h False f [] vs st2))"
| "eval h (ObjectPattern names) st = None"
| "eval h (ArrayPattern names) st = None"
| "eval_args h [] st = Some (Normal [], st)"
| "eval_args h (a # rest) st =
     andThen (eval h a st)
       (\<lambda>v st1. andThen (eval_args h rest st1) (\<lambda>vs st2. Some (Normal (v # vs), st2)))"

text \<open>
  A declarator with an initializer evaluates it and initializes the binding that was
  hoisted for it (\<^verbatim>\<open>let\<close>, \<^verbatim>\<open>const\<close>) or assigns to it (\<^verbatim>\<open>var\<close>).
\<close>

definition initialize :: "kind \<Rightarrow> string \<Rightarrow> jsval \<Rightarrow> frame \<Rightarrow> jsval outcome \<times> frame" where
  "initialize k x v st =
     (if k = KindVar then putIdentifier x v st
      else (Normal Undefined,
            st\<lparr>scopes := set_binding x (if k = KindConst then Immutable v else Mutable v) (scopes st)\<rparr>))"

fun exec_declarator :: "hostenv \<Rightarrow> kind \<Rightarrow> declarator \<Rightarrow> frame \<Rightarrow> jsval step" where
  "exec_declarator h k (VariableDeclarator ident init) st =
     (case ident of
        Identifier x \<Rightarrow>
          (case init of
             None \<Rightarrow> if k = KindVar then Some (Normal Undefined, st)
                     else Some (initialize k x Undefined st)
           | Some e \<Rightarrow> andThen (eval h e st) (\<lambda>v st1. Some (initialize k x v st1)))
      | _ \<Rightarrow> None)"

fun exec_declarators :: "hostenv \<Rightarrow> kind \<Rightarrow> declarator list \<Rightarrow> frame \<Rightarrow> jsval step" where
  "exec_declarators h k [] st = Some (Normal Undefined, st)"
| "exec_declarators h k (d # ds) st =
     andThen (exec_declarator h k d st) (\<lambda>_ st1. exec_declarators h k ds st1)"

text \<open>
  Hoisting: the \<^verbatim>\<open>let\<close> and \<^verbatim>\<open>const\<close> names of a statement list start uninitialized in
  the list's scope, its function declarations start bound; the \<^verbatim>\<open>var\<close> names of the
  whole function body, nested blocks included, start \<^verbatim>\<open>undefined\<close> in the function's
  scope.
\<close>

fun declarator_names :: "declarator list \<Rightarrow> string list" where
  "declarator_names [] = []"
| "declarator_names (VariableDeclarator ident init # ds) = bound_names ident @ declarator_names ds"

fun lexical_scope :: "stmt list \<Rightarrow> scope" where
  "lexical_scope [] = []"
| "lexical_scope (VariableDeclaration k ds # rest) =
     (if k = KindVar then [] else map (\<lambda>x. (x, Uninitialized)) (declarator_names ds))
     @ lexical_scope rest"
| "lexical_scope (FunctionDeclaration f params body # rest) =
     (f, Mutable Closure) # lexical_scope rest"
| "lexical_scope (s # rest) = lexical_scope rest"

fun var_names :: "stmt \<Rightarrow> string list"
  and var_names_list :: "stmt list \<Rightarrow> string list" where
  "var_names (VariableDeclaration k ds) = (if k = KindVar then declarator_names ds else [])"
| "var_names (BlockStatement body) = var_names_list body"
| "var_names (IfStatement test consequent alternate) =
     var_names consequent @ (case alternate of None \<Rightarrow> [] | Some s \<Rightarrow> var_names s)"
| "var_names (ExpressionStatement e) = []"
| "var_names (FunctionDeclaration f params body) = []"
| "var_names (ReturnStatement argument) = []"
| "var_names (ThrowStatement argument) = []"
| "var_names_list [] = []"
| "var_names_list (s # rest) = var_names s @ var_names_list rest"

definition function_scope :: "stmt list \<Rightarrow> scope" where
  "function_scope body = map (\<lambda>x. (x, Mutable Undefined)) (var_names_list body) @ lexical_scope body"

fun exec :: "hostenv \<Rightarrow> stmt \<Rightarrow> frame \<Rightarrow> jsval step"
  and exec_list :: "hostenv \<Rightarrow> stmt list \<Rightarrow> frame \<Rightarrow> jsval step" where
  "exec h (VariableDeclaration k ds) st = exec_declarators h k ds st"
| "exec h (ExpressionStatement e) st = eval h e st"
| "exec h (BlockStatement body) st =
     (case exec_list h body (st\<lparr>scopes := lexical_scope body # scopes st\<rparr>) of
        None \<Rightarrow> None
      | Some (r, st1) \<Rightarrow> Some (r, st1\<lparr>scopes := tl (scopes st1)\<rparr>))"
| "exec h (IfStatement test consequent alternate) st =
     andThen (eval h test st)
       (\<lambda>v st1. if truthy v then exec h consequent st1
                 else (case alternate of
                         None \<Rightarrow> Some (Normal Undefined, st1)
                       | Some s \<Rightarrow> exec h s st1))"
| "exec h (FunctionDeclaration f params body) st = Some (Normal Undefined, st)"
| "exec h (ReturnStatement argument) st =
     (case argument of
        None \<Rightarrow> Some (Return Undefined, st)
      | Some e \<Rightarrow> andThen (eval h e st) (\<lambda>v st1. Some (Return v, st1)))"
| "exec h (ThrowStatement argument) st =
     andThen (eval h argument st) (\<lambda>v st1. Some (Throw v, st1))"
| "exec_list h [] st = Some (Normal Undefined, st)"
| "exec_list h (s # rest) st = andThen (exec h s st) (\<lambda>_ st1. exec_list h rest st1)"

text \<open>
  A body that begins with the directive \<^verbatim>\<open>"use strict"\<close> runs in strict mode, and a
  function declared in a block or in the branch of an \<^verbatim>\<open>if\<close> is hoisted by rules of its
  own in sloppy mode: the evaluator has rules for neither.
\<close>

fun use_strict :: "stmt list \<Rightarrow> bool" where
  "use_strict (ExpressionStatement (StringLiteral s) # rest) = (s = ''use strict'' \<or> use_strict rest)"
| "use_strict _ = False"

fun nested_function :: "stmt \<Rightarrow> bool"
  and nested_function_list :: "stmt list \<Rightarrow> bool" where
  "nested_function (BlockStatement body) = (list_ex is_function body \<or> nested_function_list body)"
| "nested_function (IfStatement test consequent alternate) =
     (is_function consequent \<or> nested_function consequent
      \<or> (case alternate of None \<Rightarrow> False | Some s \<Rightarrow> is_function s \<or> nested_function s))"
| "nested_function (FunctionDeclaration f params body) = False"
| "nested_function (VariableDeclaration k ds) = False"
| "nested_function (ExpressionStatement e) = False"
| "nested_function (ReturnStatement argument) = False"
| "nested_function (ThrowStatement argument) = False"
| "nested_function_list [] = False"
| "nested_function_list (s # rest) = (nested_function s \<or> nested_function_list rest)"

text \<open>
  Calling the wrapper: the promise resolves with the value of the \<^verbatim>\<open>return\<close> that ended
  the body, with \<^verbatim>\<open>undefined\<close> when the body ran to its end, and rejects with what the
  body threw.
\<close>

definition call_wrapper ::
  "hostenv \<Rightarrow> stmt list \<Rightarrow> vm_Context \<Rightarrow> nat \<Rightarrow> (effect list \<times> completion \<times> vm_Context \<times> nat) option" where
  "call_wrapper h body c t =
     (if use_strict body \<or> nested_function_list body then None
      else
        (case exec_list h body \<lparr>scopes = [function_scope body], realm = c, effects = [], tick = t\<rparr> of
           None \<Rightarrow> None
         | Some (r, st) \<Rightarrow>
             Some (effects st,
                   (case r of Normal _ \<Rightarrow> Resolved Undefined
                            | Return v \<Rightarrow> Resolved v
                            | Throw thrown \<Rightarrow> Rejected thrown),
                   realm st, tick st)))"

text \<open>
  The engine's own parser is a parameter too: \<open>compile\<close> gives the body of the wrapper's
  arrow function for the text of a wrapper, or the syntax error, which \<^verbatim>\<open>vm.runInContext\<close>
  throws as an error of the host's realm.
\<close>

definition runInContext :: "(string \<Rightarrow> string + stmt list) \<Rightarrow> hostenv \<Rightarrow> vm" where
  "runInContext compile h code c t =
     (case compile code of
        Inl err \<Rightarrow> Some ([], Rejected (host_error ''SyntaxError'' err), c, t)
      | Inr body \<Rightarrow> call_wrapper h body c t)"

subsection \<open>A small world for examples\<close>

text \<open>
  A parser, a generator and an engine that know a handful of texts. \<open>readings\<close> gives the
  tree a text is read as. Babel's parser is called without
  \<^verbatim>\<open>allowReturnOutsideFunction\<close>: it throws on a fragment with a \<^verbatim>\<open>return\<close> statement of its
  own, and so does the parser here. The engine reads the text between the two lines of
  the wrapper as the body of a function, where a \<^verbatim>\<open>return\<close> is allowed. \<open>printed\<close> is the
  text the generator gives for a tree, one statement to the line.
\<close>

definition assign_page_null :: "stmt list" where
  "assign_page_null =
     [ExpressionStatement (AssignmentExpression ''='' (Identifier ''page'') NullLiteral)]"

definition return_page :: "stmt list" where
  "return_page = [ReturnStatement (Some (Identifier ''page''))]"

definition two :: "stmt list" where
  "two = [ExpressionStatement (NumericLiteral 2)]"

definition return_two :: "stmt list" where
  "return_two = [ReturnStatement (Some (NumericLiteral 2))]"

definition declare_page :: "stmt list" where
  "declare_page =
     [VariableDeclaration KindConst
        [VariableDeclarator (Identifier ''page'')
           (Some (AwaitExpression
                    (CallExpression (MemberExpression (Identifier ''context'') ''newPage'') [])))]]"

definition declare_page_return :: "stmt list" where
  "declare_page_return = declare_page @ [ReturnStatement (Some (Identifier ''page''))]"

definition log_a :: "stmt list" where
  "log_a = [ExpressionStatement
              (CallExpression (MemberExpression (Identifier ''console'') ''log'') [StringLiteral ''a''])]"

definition log_b_throw :: "stmt list" where
  "log_b_throw =
     [ExpressionStatement
        (CallExpression (MemberExpression (Identifier ''console'') ''log'') [StringLiteral ''b'']),
      ThrowStatement (StringLiteral ''stop'')]"

definition printed :: "(stmt list \<times> string) list" where
  "printed =
     [(traverse assign_page_null, ''page = null;'' @ [CHR 0x0A] @ ''globalThis.page = page;''),
      (two, ''2;''),
      (traverse declare_page,
       ''const page = await context.newPage();'' @ [CHR 0x0A] @ ''globalThis.page = page;''),
      (log_a, ''console.log(\"a\");''),
      (log_b_throw, ''console.log(\"b\");'' @ [CHR 0x0A] @ ''throw \"stop\";'')]"

definition readings :: "(string \<times> stmt list) list" where
  "readings =
     [(''page = null'', assign_page_null),
      (''return page'', return_page),
      (''2'', two),
      (''return 2'', return_two),
      (''const page = await context.newPage()'', declare_page),
      (''const page = await context.newPage(); return page'', declare_page_return),
      (''console.log(\"a\")'', log_a),
      (''console.log(\"b\"); throw \"stop\"'', log_b_throw)]
     @ map (\<lambda>(tree, out). (out, tree)) printed"

definition toy_babel :: babel where
  "toy_babel =
     \<lparr>parse = (\<lambda>code. case map_of readings code of
                         None \<Rightarrow> Inl ''Unexpected token''
                       | Some ast \<Rightarrow>
                           if has_return_list ast then Inl ''return outside of function''
                           else Inr ast),
      generate = (\<lambda>t. case map_of printed t of
                         None \<Rightarrow> Inl ''unprintable'' | Some out \<Rightarrow> Inr out)\<rparr>"

definition toy_compile :: "string \<Rightarrow> string + stmt list" where
  "toy_compile code =
     (case map_of (map (\<lambda>(src, tree). (wrappedCode src, tree)) readings) code of
        None \<Rightarrow> Inl ''Unexpected token''
      | Some body \<Rightarrow> Inr body)"

text \<open>A host whose every method returns a new object, and emits nothing.\<close>

definition toy_host :: hostenv where
  "toy_host = \<lparr>call_method = (\<lambda>t object m args. (Inr (Handle (100 + t)), [])),
               get_property = (\<lambda>t object property. Undefined)\<rparr>"

definition toy_vm :: vm where
  "toy_vm = runInContext toy_compile toy_host"

definition new_executor :: executor where
  "new_executor =
     \<lparr>contexts = Map.empty, consoleMessages = Map.empty, sessionConsoleMessages = Map.empty,
      consoleHandlersRegistered = {}, consoleHandlers = Map.empty,
      sessionManager = empty_manager, clock = 0\<rparr>"

subsection \<open>Vocabulary for the executor's properties\<close>

text \<open>
  The lines one evaluation adds to a session's two buffers, oldest first: the session
  console calls made for the session, and the \<^verbatim>\<open>console\<close> events of the pages that carry a
  listener of the session.
\<close>

fun session_lines :: "string \<Rightarrow> effect list \<Rightarrow> string list" where
  "session_lines sessionId [] = []"
| "session_lines sessionId (SessionLog s lv args # rest) =
     (if s = sessionId then [label lv @ join args] else []) @ session_lines sessionId rest"
| "session_lines sessionId (PageConsole p text # rest) = session_lines sessionId rest"

fun page_lines :: "(handle \<rightharpoonup> string) \<Rightarrow> string \<Rightarrow> effect list \<Rightarrow> string list" where
  "page_lines listeners sessionId [] = []"
| "page_lines listeners sessionId (SessionLog s lv args # rest) = page_lines listeners sessionId rest"
| "page_lines listeners sessionId (PageConsole p text # rest) =
     (if listeners p = Some sessionId then [text] else []) @ page_lines listeners sessionId rest"

text \<open>
  The lines (of the page console, of the session console) that the evaluation made by
  one call of \<open>execute\<close> emits for the call's session; none when the call does not get
  as far as evaluating.
\<close>

definition emitted :: "vm \<Rightarrow> babel \<Rightarrow> string \<Rightarrow> string \<Rightarrow> executor \<Rightarrow> string list \<times> string list" where
  "emitted run bb sessionId code ex0 =
     (let ex1 = (if contexts ex0 sessionId = None then initializeContext sessionId ex0 else ex0) in
      case ensurePlaywrightInitialized sessionId ex1 of
        (Inl err, ex2) \<Rightarrow> ([], [])
      | (Inr _, ex2) \<Rightarrow>
          (case contexts ex2 sessionId of
             None \<Rightarrow> ([], [])
           | Some c \<Rightarrow>
               (case run (wrappedCode (fst (rewriteCodeToTrackVariables bb code))) c (clock ex2) of
                  None \<Rightarrow> ([], [])
                | Some (effs, rest) \<Rightarrow>
                    (page_lines (consoleHandlers ex2) sessionId effs, session_lines sessionId effs))))"

text \<open>What a buffer holds for a session when a call starts: nothing for a new session.\<close>

definition backlog :: "executor \<Rightarrow> (string \<rightharpoonup> string list) \<Rightarrow> string \<Rightarrow> string list" where
  "backlog ex m sessionId = (if contexts ex sessionId = None then [] else buffer m sessionId)"







text \<open>A second session next to the one a call is made for.\<close>

definition other_session :: executor where
  "other_session =
     new_executor\<lparr>contexts := [''b'' \<mapsto> (createContext (contextObject ''b''))
                                  \<lparr>properties := (contextObject ''b'')(''page'' \<mapsto> Handle 7)\<rparr>]\<rparr>"

text \<open>The value a session's namespace holds for a name.\<close>

definition slot :: "string \<Rightarrow> string \<Rightarrow> executor \<Rightarrow> jsval option" where
  "slot sessionId x ex = (case contexts ex sessionId of None \<Rightarrow> None | Some c \<Rightarrow> properties c x)"

subsection \<open>The tracker in the words of its specification\<close>

text \<open>
  What the specification counts as a tracked binding: a declarator whose \<^verbatim>\<open>id\<close>, or an
  assignment whose left-hand side, is a bare identifier with a tracked name. A
  destructuring pattern is none, whatever names it binds, and neither is a member
  expression.
\<close>

fun bare_tracked :: "expr \<Rightarrow> string list" where
  "bare_tracked (Identifier name) = (if name \<in> TRACKED_VARIABLES then [name] else [])"
| "bare_tracked (ObjectPattern names) = []"
| "bare_tracked (ArrayPattern names) = []"
| "bare_tracked (MemberExpression object property) = []"
| "bare_tracked _ = []"

text \<open>
  The tracked assignments of an expression, an assignment before the ones inside it,
  and the tracked bindings of a declarator: the declaration, then the assignments
  inside it.
\<close>

fun assignments :: "expr \<Rightarrow> string list" where
  "assignments (AssignmentExpression operator left right) =
     bare_tracked left @ assignments left @ assignments right"
| "assignments (MemberExpression object property) = assignments object"
| "assignments (CallExpression callee arguments) =
     assignments callee @ concat (map assignments arguments)"
| "assignments (AwaitExpression argument) = assignments argument"
| "assignments _ = []"

fun bindings :: "declarator \<Rightarrow> match list" where
  "bindings (VariableDeclarator ident init) =
     map Declared (bare_tracked ident) @ map Assigned (assignments ident)
     @ (case init of None \<Rightarrow> [] | Some e \<Rightarrow> map Assigned (assignments e))"

text \<open>The names of all tracked bindings of a fragment, at any depth.\<close>

fun bare_bindings :: "stmt \<Rightarrow> string list"
  and bare_bindings_list :: "stmt list \<Rightarrow> string list" where
  "bare_bindings (VariableDeclaration k ds) = map name_of (concat (map bindings ds))"
| "bare_bindings (ExpressionStatement e) = assignments e"
| "bare_bindings (BlockStatement body) = bare_bindings_list body"
| "bare_bindings (IfStatement test consequent alternate) =
     assignments test @ bare_bindings consequent
     @ (case alternate of None \<Rightarrow> [] | Some s \<Rightarrow> bare_bindings s)"
| "bare_bindings (FunctionDeclaration f params body) = bare_bindings_list body"
| "bare_bindings (ReturnStatement argument) =
     (case argument of None \<Rightarrow> [] | Some e \<Rightarrow> assignments e)"
| "bare_bindings (ThrowStatement argument) = assignments argument"
| "bare_bindings_list [] = []"
| "bare_bindings_list (s # rest) = bare_bindings s @ bare_bindings_list rest"

text \<open>
  The names of the statements \<^verbatim>\<open>globalThis.<name> = <name>;\<close> that stand in the statement
  lists of a fragment, read off the statements themselves.
\<close>

fun mirror_name :: "stmt \<Rightarrow> string list" where
  "mirror_name (ExpressionStatement
                  (AssignmentExpression operator (MemberExpression (Identifier object) property)
                     (Identifier name))) =
     (if operator = ''='' \<and> object = ''globalThis'' \<and> property = name \<and> name \<in> TRACKED_VARIABLES
      then [name] else [])"
| "mirror_name _ = []"

fun mirror_names :: "stmt \<Rightarrow> string list"
  and mirror_names_list :: "stmt list \<Rightarrow> string list" where
  "mirror_names (BlockStatement body) = mirror_names_list body"
| "mirror_names (IfStatement test consequent alternate) =
     mirror_names consequent @ (case alternate of None \<Rightarrow> [] | Some s \<Rightarrow> mirror_names s)"
| "mirror_names (FunctionDeclaration f params body) = mirror_names_list body"
| "mirror_names (VariableDeclaration k ds) = []"
| "mirror_names (ExpressionStatement e) = []"
| "mirror_names (ReturnStatement argument) = []"
| "mirror_names (ThrowStatement argument) = []"
| "mirror_names_list [] = []"
| "mirror_names_list (s # rest) = mirror_name s @ mirror_names s @ mirror_names_list rest"

text \<open>
  A fragment that binds \<^verbatim>\<open>page\<close> through a pattern, \<^verbatim>\<open>browser\<close> through a bare identifier,
  and assigns \<^verbatim>\<open>context\<close> through a member expression.
\<close>

definition pattern_and_bare :: "stmt list" where
  "pattern_and_bare =
     [VariableDeclaration KindConst
        [VariableDeclarator (ObjectPattern [''page'']) (Some (Identifier ''obj'')),
         VariableDeclarator (Identifier ''browser'') (Some (Identifier ''b''))],
      ExpressionStatement
        (AssignmentExpression ''='' (MemberExpression (Identifier ''holder'') ''context'')
           (Identifier ''x''))]"

text \<open>
  Where a statement stands in a fragment: the keys that lead to it from the fragment's
  statement list, through the elements of statement lists and the branches of \<^verbatim>\<open>if\<close>
  statements. A statement is an element of a statement list when the last key is
  \<open>Element\<close>.
\<close>

datatype key = Element nat | Consequent | Alternate

type_synonym address = "key list"

text \<open>
  The target of a match, as the specification words it: for a declaration the nearest
  enclosing function declaration when there is one (\<open>fn\<close>), otherwise the nearest
  enclosing statement that is an element of a statement list (\<open>st\<close>); for an assignment
  the nearest enclosing statement that is an element of a statement list.
\<close>

fun target :: "address option \<Rightarrow> address \<Rightarrow> match \<Rightarrow> address" where
  "target fn st (Declared n) = (case fn of Some f \<Rightarrow> f | None \<Rightarrow> st)"
| "target fn st (Assigned n) = st"

definition aim :: "address option \<Rightarrow> address \<Rightarrow> match list \<Rightarrow> (address \<times> string) list" where
  "aim fn st ms = map (\<lambda>m. (target fn st m, name_of m)) ms"

text \<open>
  The tracked bindings of the statement at address \<open>a\<close>, in the order of the visit, each
  with its target.
\<close>

fun located :: "address option \<Rightarrow> address \<Rightarrow> address \<Rightarrow> stmt \<Rightarrow> (address \<times> string) list"
  and located_list :: "address option \<Rightarrow> address \<Rightarrow> nat \<Rightarrow> stmt list \<Rightarrow> (address \<times> string) list" where
  "located fn st a (VariableDeclaration k ds) = aim fn st (concat (map bindings ds))"
| "located fn st a (ExpressionStatement e) = aim fn st (map Assigned (assignments e))"
| "located fn st a (BlockStatement body) = located_list fn a 0 body"
| "located fn st a (IfStatement test consequent alternate) =
     aim fn st (map Assigned (assignments test))
     @ located fn st (a @ [Consequent]) consequent
     @ (case alternate of None \<Rightarrow> [] | Some s \<Rightarrow> located fn st (a @ [Alternate]) s)"
| "located fn st a (FunctionDeclaration f params body) = located_list (Some a) a 0 body"
| "located fn st a (ReturnStatement argument) =
     (case argument of None \<Rightarrow> [] | Some e \<Rightarrow> aim fn st (map Assigned (assignments e)))"
| "located fn st a (ThrowStatement argument) = aim fn st (map Assigned (assignments argument))"
| "located_list fn a i [] = []"
| "located_list fn a i (s # rest) =
     located fn (a @ [Element i]) (a @ [Element i]) s @ located_list fn a (Suc i) rest"

text \<open>
  The names to put behind the statement at an address: those of the bindings with that
  target, the latest visited first.
\<close>

definition hits :: "(address \<times> string) list \<Rightarrow> address \<Rightarrow> string list" where
  "hits T a = map snd (filter (\<lambda>(t, n). t = a) T)"

definition behind :: "(address \<times> string) list \<Rightarrow> address \<Rightarrow> string list" where
  "behind T a = rev (hits T a)"

text \<open>
  The fragment with \<^verbatim>\<open>globalThis.<name> = <name>;\<close> put directly behind the target of every
  tracked binding, in the statement list that holds the target, and nothing else
  changed.
\<close>

fun placed :: "(address \<times> string) list \<Rightarrow> address \<Rightarrow> stmt \<Rightarrow> stmt"
  and placed_list :: "(address \<times> string) list \<Rightarrow> address \<Rightarrow> nat \<Rightarrow> stmt list \<Rightarrow> stmt list" where
  "placed T a (BlockStatement body) = BlockStatement (placed_list T a 0 body)"
| "placed T a (IfStatement test consequent alternate) =
     IfStatement test (placed T (a @ [Consequent]) consequent)
       (case alternate of None \<Rightarrow> None | Some s \<Rightarrow> Some (placed T (a @ [Alternate]) s))"
| "placed T a (FunctionDeclaration f params body) =
     FunctionDeclaration f params (placed_list T a 0 body)"
| "placed T a (VariableDeclaration k ds) = VariableDeclaration k ds"
| "placed T a (ExpressionStatement e) = ExpressionStatement e"
| "placed T a (ReturnStatement argument) = ReturnStatement argument"
| "placed T a (ThrowStatement argument) = ThrowStatement argument"
| "placed_list T a i [] = []"
| "placed_list T a i (s # rest) =
     placed T (a @ [Element i]) s # map expressionStatement (behind T (a @ [Element i]))
     @ placed_list T a (Suc i) rest"

definition mirrored :: "stmt list \<Rightarrow> stmt list" where
  "mirrored program = placed_list (located_list None [] 0 program) [] 0 program"





section \<open>Properties\<close>

lemma catching_calls_page:
  "calls (catching l (close_page_step session) w) =
     calls w @ (case page session of Some p \<Rightarrow> if p \<in> closed w then [] else [PageClose p] | None \<Rightarrow> [])"
  by (simp add: catching_def close_page_step_def page_close_def page_isClosed_def skip_def
      invoke_def console_error_def split: option.splits)

lemma catching_calls_context:
  "calls (catching l (close_context_step session) w) =
     calls w @ (case bcontext session of Some c \<Rightarrow> [ContextClose c] | None \<Rightarrow> [])"
  by (simp add: catching_def close_context_step_def context_close_def skip_def
      invoke_def console_error_def split: option.splits)

lemma catching_calls_browser:
  "calls (catching l (close_browser_step session) w) =
     calls w @ (case browser session of Some b \<Rightarrow> if b \<in> connected w then [BrowserClose b] else [] | None \<Rightarrow> [])"
  by (simp add: catching_def close_browser_step_def browser_close_def browser_isConnected_def skip_def
      invoke_def console_error_def split: option.splits)

lemma catching_connected_page:
  "connected (catching l (close_page_step session) w) = connected w"
  by (simp add: catching_def close_page_step_def page_close_def page_isClosed_def skip_def
      invoke_def console_error_def split: option.splits)

lemma catching_connected_context:
  "connected (catching l (close_context_step session) w) = connected w"
  by (simp add: catching_def close_context_step_def context_close_def skip_def
      invoke_def console_error_def split: option.splits)

lemma catching_throwing_page:
  "throwing (catching l (close_page_step session) w) = throwing w"
  by (simp add: catching_def close_page_step_def page_close_def page_isClosed_def skip_def
      invoke_def console_error_def split: option.splits)

lemma catching_throwing_context:
  "throwing (catching l (close_context_step session) w) = throwing w"
  by (simp add: catching_def close_context_step_def context_close_def skip_def
      invoke_def console_error_def split: option.splits)

lemma catching_errlog_page:
  "errlog (catching l (close_page_step session) w) =
     errlog w @ (case page session of
                   Some p \<Rightarrow> if p \<notin> closed w \<and> PageClose p \<in> throwing w
                             then [l @ '' page.close failed''] else []
                 | None \<Rightarrow> [])"
  by (simp add: catching_def close_page_step_def page_close_def page_isClosed_def skip_def
      invoke_def console_error_def split: option.splits)

lemma catching_errlog_context:
  "errlog (catching l (close_context_step session) w) =
     errlog w @ (case bcontext session of
                   Some c \<Rightarrow> if ContextClose c \<in> throwing w
                             then [l @ '' context.close failed''] else []
                 | None \<Rightarrow> [])"
  by (simp add: catching_def close_context_step_def context_close_def skip_def
      invoke_def console_error_def split: option.splits)

lemma catching_errlog_browser:
  "errlog (catching l (close_browser_step session) w) =
     errlog w @ (case browser session of
                   Some b \<Rightarrow> if b \<in> connected w \<and> BrowserClose b \<in> throwing w
                             then [l @ '' browser.close failed''] else []
                 | None \<Rightarrow> [])"
  by (simp add: catching_def close_browser_step_def browser_close_def browser_isConnected_def
      skip_def invoke_def console_error_def split: option.splits)

lemma cleanupSession_calls:
  "sessions m sessionId = Some session \<Longrightarrow>
   calls (pw (cleanupSession sessionId m)) = calls (pw m) @ attempts (pw m) session"
  by (simp add: cleanupSession_def Let_def attempts_def catching_calls_page
      catching_calls_context catching_calls_browser catching_connected_page
      catching_connected_context split: option.splits)

lemma cleanupSession_errlog:
  "sessions m sessionId = Some session \<Longrightarrow>
   errlog (pw (cleanupSession sessionId m)) = errlog (pw m) @ diagnostics sessionId (pw m) session"
  by (simp add: cleanupSession_def Let_def diagnostics_def catching_errlog_page
      catching_errlog_context catching_errlog_browser catching_connected_page
      catching_connected_context catching_throwing_page catching_throwing_context
      split: option.splits)

lemma cleanupSession_removes:
  "sessions (cleanupSession sessionId m) sessionId = None"
  by (simp add: cleanupSession_def Let_def split: option.splits)

text \<open>
  C7. Tearing a session down attempts the page close, then the context close, then the
  browser close, in that order, each when its handle is present and live. Which of them
  throw has no influence on the calls made (\<open>attempts\<close> does not read \<open>throwing\<close>): a
  close that throws leaves one diagnostic line and the later closes are still attempted.
  The session's entry is gone afterwards. The function has no error result: no close
  error leaves it.
\<close>

theorem cleanupSession_order:
  assumes "sessions m sessionId = Some session"
  shows "calls (pw (cleanupSession sessionId m)) = calls (pw m) @ attempts (pw m) session
         \<and> errlog (pw (cleanupSession sessionId m))
             = errlog (pw m) @ diagnostics sessionId (pw m) session
         \<and> sessions (cleanupSession sessionId m) sessionId = None"
  using assms cleanupSession_calls cleanupSession_errlog cleanupSession_removes by simp

theorem cleanupSession_order_witness:
  "sessions demo_manager ''s'' = Some demo_session
   \<and> calls (pw (cleanupSession ''s'' demo_manager)) = [PageClose 1, ContextClose 2, BrowserClose 3]
   \<and> errlog (pw (cleanupSession ''s'' demo_manager))
       = [''Error closing page for session s: page.close failed'',
          ''Error closing context for session s: context.close failed'']
   \<and> sessions (cleanupSession ''s'' demo_manager) ''s'' = None"
proof -
  have h: "sessions demo_manager ''s'' = Some demo_session"
    by (simp add: demo_manager_def)
  show ?thesis
    using h cleanupSession_order [OF h]
    by (simp add: demo_manager_def demo_session_def attempts_def diagnostics_def)
qed

subsection \<open>ensureBrowser\<close>

lemma ensureSession_pw: "pw (snd (ensureSession sessionId m)) = pw m"
  by (simp add: ensureSession_def Let_def split: option.splits)

lemma ensureSession_present:
  "sessions (snd (ensureSession sessionId m)) sessionId = Some (fst (ensureSession sessionId m))"
  by (simp add: ensureSession_def Let_def split: option.splits)

lemma ensureSession_again:
  "sessions m sessionId = Some session \<Longrightarrow> ensureSession sessionId m = (session, m)"
  by (simp add: ensureSession_def)

text \<open>Run alone, the three stretches of a call are the function itself.\<close>

lemma eb_step_alone:
  "ensureBrowser sessionId m =
     (case eb_step sessionId Entry m of
        (pc1, m1) \<Rightarrow>
          (case eb_step sessionId pc1 m1 of
             (pc2, m2) \<Rightarrow>
               (case eb_step sessionId pc2 m2 of
                  (Returned r, m3) \<Rightarrow> (r, m3)
                | (_, m3) \<Rightarrow> (Inl ''pending'', m3))))"
proof -
  obtain session m1 where es: "ensureSession sessionId m = (session, m1)"
    by (cases "ensureSession sessionId m")
  have present: "sessions m1 sessionId = Some session"
    using ensureSession_present [of sessionId m] es by simp
  have obj: "session_object sessionId m1 = session"
    using present by (simp add: session_object_def ensureSession_def)
  show ?thesis
    using es obj
    by (simp add: ensureBrowser_def Let_def split: prod.splits sum.splits if_splits)
qed

text \<open>
  C8, as the code has it. A call of \<^verbatim>\<open>ensureBrowser\<close> that has returned a browser leaves
  the session such that the next call returns the same browser and changes nothing, so
  it launches nothing; and the first call made one launch exactly when the session had
  no connected browser, none otherwise.
\<close>

theorem ensureBrowser_awaited_twice:
  assumes "ensureBrowser sessionId m = (Inr r, m1)"
  shows "ensureBrowser sessionId m1 = (Inr r, m1)
         \<and> launches (pw m1) = launches (pw m)
             + (if needs_launch (pw m) (session_object sessionId m) then 1 else 0)"
proof -
  obtain session m0 where es: "ensureSession sessionId m = (session, m0)"
    by (cases "ensureSession sessionId m")
  have present: "sessions m0 sessionId = Some session"
    using ensureSession_present [of sessionId m] es by simp
  have pw0: "pw m0 = pw m"
    using ensureSession_pw [of sessionId m] es by simp
  have obj: "session_object sessionId m = session"
    using es by (simp add: session_object_def)
  show ?thesis
  proof (cases "needs_launch (pw m) session")
    case False
    then have ret: "r = browser session" "m1 = m0"
      using assms es pw0 by (simp_all add: ensureBrowser_def)
    have "ensureBrowser sessionId m0 = (Inr (browser session), m0)"
      using False present pw0 by (simp add: ensureBrowser_def ensureSession_again)
    then show ?thesis
      using ret False obj pw0 by simp
  next
    case True
    then obtain c b w where
      la: "launchPersistentContext (userDataDir session) (pw m) = (Inr (c, b), w)"
      and r: "r = Some b" and m1: "m1 = store_launch sessionId c b (m0\<lparr>pw := w\<rparr>)"
      using assms es pw0
      by (auto simp add: ensureBrowser_def split: prod.splits sum.splits)
    have w: "b \<in> connected w" "launches w = launches (pw m) + 1"
      using la
      by (auto simp add: launchPersistentContext_def invoke_def launches_def split: if_splits)
    have s1: "sessions m1 sessionId = Some (session\<lparr>bcontext := Some c, browser := Some b\<rparr>)"
      and pw1: "pw m1 = w"
      using m1 present by (simp_all add: store_launch_def)
    have "ensureBrowser sessionId m1 = (Inr (Some b), m1)"
      using s1 pw1 w(1)
      by (simp add: ensureBrowser_def ensureSession_again needs_launch_def browser_isConnected_def)
    then show ?thesis
      using r True obj pw1 w(2) by simp
  qed
qed

theorem ensureBrowser_awaited_twice_witness:
  "ensureBrowser ''s'' empty_manager = (Inr (Some 1), snd (ensureBrowser ''s'' empty_manager))
   \<and> ensureBrowser ''s'' (snd (ensureBrowser ''s'' empty_manager))
       = (Inr (Some 1), snd (ensureBrowser ''s'' empty_manager))
   \<and> launches (pw (snd (ensureBrowser ''s'' empty_manager))) = 1"
proof -
  have h: "ensureBrowser ''s'' empty_manager = (Inr (Some 1), snd (ensureBrowser ''s'' empty_manager))"
    by (simp add: ensureBrowser_def ensureSession_def empty_manager_def needs_launch_def
        launchPersistentContext_def invoke_def store_launch_def Let_def)
  have n: "needs_launch (pw empty_manager) (session_object ''s'' empty_manager)"
    by (simp add: session_object_def ensureSession_def empty_manager_def needs_launch_def Let_def)
  have l: "launches (pw empty_manager) = 0"
    by (simp add: launches_def empty_manager_def)
  show ?thesis
    using h n l ensureBrowser_awaited_twice [OF h] by simp
qed

text \<open>
  C8 as stated fails: two calls for a session with no resources, the second started
  before the first has returned, launch two browsers.
\<close>

theorem ensureBrowser_overlapping_counterexample:
  "launches (pw (snd (run_schedule [0, 1, 0, 1, 0, 1] [(''s'', Entry), (''s'', Entry)] empty_manager))) = 2"
  by (simp add: empty_manager_def ensureSession_def session_object_def needs_launch_def
      launchPersistentContext_def invoke_def store_launch_def launches_def Let_def)

subsection \<open>The variable tracker\<close>

lemma pending_empty:
  "sites s = [] \<Longrightarrow> pending infun s = []"
  "sites_list ss = [] \<Longrightarrow> escaping ss = []"
  by (induction infun s and ss rule: pending_escaping.induct) (auto split: option.splits)

lemma function_escaping_empty: "sites s = [] \<Longrightarrow> function_escaping s = []"
  by (cases s) (simp_all add: pending_empty)

lemma traverse_identity:
  "sites s = [] \<Longrightarrow> traverse_stmt infun s = s"
  "sites_list ss = [] \<Longrightarrow> traverse_list infun ss = ss"
  by (induction infun s and infun ss rule: traverse_stmt_traverse_list.induct)
     (auto simp add: wrapped_def insertAfter_def pending_empty function_escaping_empty
       split: option.splits)

lemma assigned_tracked: "n \<in> set (assigned e) \<Longrightarrow> n \<in> TRACKED_VARIABLES"
  by (induction e rule: assigned.induct) (auto split: expr.splits if_splits)

lemma declared_tracked: "m \<in> set (declared d) \<Longrightarrow> name_of m \<in> TRACKED_VARIABLES"
  by (cases d) (auto split: expr.splits option.splits if_splits dest: assigned_tracked)

lemma declared_names_sub: "n \<in> set (declared_names ms) \<Longrightarrow> n \<in> name_of ` set ms"
  by (induction ms rule: declared_names.induct) auto

lemma assigned_names_sub: "n \<in> set (assigned_names ms) \<Longrightarrow> n \<in> name_of ` set ms"
  by (induction ms rule: assigned_names.induct) auto

lemma pending_tracked:
  "m \<in> set (pending infun s) \<Longrightarrow> name_of m \<in> TRACKED_VARIABLES"
  "n \<in> set (escaping ss) \<Longrightarrow> n \<in> TRACKED_VARIABLES"
proof (induction infun s and ss arbitrary: m and n rule: pending_escaping.induct)
  case (9 s rest)
  then show ?case using declared_names_sub [of n "pending True s"] by auto
qed (auto split: option.splits if_splits dest: assigned_tracked declared_tracked)

lemma sites_tracked:
  "m \<in> set (sites s) \<Longrightarrow> name_of m \<in> TRACKED_VARIABLES"
  "m \<in> set (sites_list ss) \<Longrightarrow> name_of m \<in> TRACKED_VARIABLES"
  by (induction s and ss arbitrary: m and m rule: sites_sites_list.induct)
     (auto split: option.splits dest: assigned_tracked declared_tracked)

lemma assigned_written: "n \<in> set (assigned e) \<Longrightarrow> n \<in> set (written e)"
  by (induction e rule: assigned.induct) (auto split: expr.splits if_splits)

lemma declared_written: "m \<in> set (declared d) \<Longrightarrow> name_of m \<in> set (written_declarator d)"
  by (cases d) (auto split: expr.splits option.splits if_splits dest: assigned_written)

lemma sites_touched:
  "m \<in> set (sites s) \<Longrightarrow> name_of m \<in> set (touched s)"
  "m \<in> set (sites_list ss) \<Longrightarrow> name_of m \<in> set (touched_list ss)"
  by (induction s and ss arbitrary: m and m rule: sites_sites_list.induct)
     (auto split: option.splits dest: assigned_written declared_written)

lemma untouched_no_sites:
  assumes "set (touched_list ss) \<inter> TRACKED_VARIABLES = {}"
  shows "sites_list ss = []"
proof (cases "sites_list ss")
  case Nil
  then show ?thesis .
next
  case (Cons m ms)
  then have "m \<in> set (sites_list ss)" by simp
  then have "name_of m \<in> set (touched_list ss)" "name_of m \<in> TRACKED_VARIABLES"
    using sites_touched(2) sites_tracked(2) by blast+
  then show ?thesis using assms by blast
qed

lemma is_mirror_traverse: "is_mirror (traverse_stmt infun s) = is_mirror s"
  by (cases s) (auto simp add: is_mirror_def expressionStatement_def)

lemma function_escaping_tracked: "set (function_escaping s) \<subseteq> TRACKED_VARIABLES"
  by (cases s) (auto dest: pending_tracked)

lemma insertAfter_tracked: "set (insertAfter infun s) \<subseteq> TRACKED_VARIABLES"
  using function_escaping_tracked [of s]
  by (auto simp add: insertAfter_def dest!: assigned_names_sub dest: pending_tracked)

lemma unmirror_prefix:
  "set ns \<subseteq> TRACKED_VARIABLES \<Longrightarrow>
   unmirror_list (map expressionStatement ns @ rest) = unmirror_list rest"
  by (induction ns) (auto simp add: is_mirror_def)

lemma wrapped_not_function: "\<not> is_function s \<Longrightarrow> wrapped s s' = s'"
  by (cases s) (simp_all add: wrapped_def)

lemma unmirror_traverse:
  "block_level s \<Longrightarrow> unmirror (traverse_stmt infun s) = unmirror s"
  "block_level_list ss \<Longrightarrow> unmirror_list (traverse_list infun ss) = unmirror_list ss"
  by (induction infun s and infun ss rule: traverse_stmt_traverse_list.induct)
     (auto simp add: wrapped_not_function unmirror_prefix insertAfter_tracked is_mirror_traverse
       split: option.splits)

lemma assignments_assigned: "assignments e = assigned e"
proof (induction e rule: assigned.induct)
  case (1 operator left right)
  then show ?case by (cases left) auto
next
  case (3 callee arguments)
  have "concat (map assignments arguments) = concat (map assigned arguments)"
    by (rule arg_cong [where f = concat], rule map_cong [OF refl], rule 3(2))
  then show ?case
    by (simp add: 3(1))
qed auto

lemma bindings_declared: "bindings = declared"
proof
  fix d show "bindings d = declared d"
    by (cases d) (auto simp add: assignments_assigned split: expr.splits option.splits)
qed




lemma hits_append: "hits (T1 @ T2) t = hits T1 t @ hits T2 t"
  by (simp add: hits_def)

lemma hits_Nil: "hits [] t = []"
  by (simp add: hits_def)

lemma hits_none: "t \<notin> fst ` set T \<Longrightarrow> hits T t = []"
  by (induction T) (auto simp add: hits_def)

lemma hits_aim_all: "hits (aim None st ms) st = map name_of ms"
  by (induction ms rule: declared_names.induct) (simp_all add: hits_def aim_def)

lemma hits_aim_assigned: "f \<noteq> st \<Longrightarrow> hits (aim (Some f) st ms) st = assigned_names ms"
  by (induction ms rule: declared_names.induct) (simp_all add: hits_def aim_def)

lemma hits_aim_declared: "f \<noteq> st \<Longrightarrow> hits (aim (Some f) st ms) f = declared_names ms"
  by (induction ms rule: declared_names.induct) (simp_all add: hits_def aim_def)

lemma aim_range: "(t, n) \<in> set (aim fn st ms) \<Longrightarrow> fn = Some t \<or> t = st"
  by (induction ms rule: declared_names.induct) (auto simp add: aim_def split: option.splits)

lemma declared_names_append: "declared_names (xs @ ys) = declared_names xs @ declared_names ys"
  by (induction xs rule: declared_names.induct) simp_all

lemma assigned_names_append: "assigned_names (xs @ ys) = assigned_names xs @ assigned_names ys"
  by (induction xs rule: assigned_names.induct) simp_all

lemma names_of_assigned:
  "declared_names (map Assigned xs) = []" "assigned_names (map Assigned xs) = xs"
  "declared_names (map Declared xs) = xs" "assigned_names (map Declared xs) = []"
  by (induction xs) simp_all

lemma located_range:
  "(t, n) \<in> set (located fn st a s) \<Longrightarrow> fn = Some t \<or> t = st \<or> prefix a t"
  "(t, n) \<in> set (located_list fn a i ss) \<Longrightarrow>
     fn = Some t \<or> (\<exists>j. i \<le> j \<and> prefix (a @ [Element j]) t)"
proof (induction fn st a s and fn a i ss arbitrary: t n and t n rule: located_located_list.induct)
  case (3 fn st a body)
  then show ?case by (fastforce dest: append_prefixD)
next
  case (4 fn st a test consequent alternate)
  then show ?case
    by (fastforce dest: aim_range append_prefixD split: option.splits)
next
  case (5 fn st a f params body)
  from "5.prems" have "(t, n) \<in> set (located_list (Some a) a 0 body)" by simp
  from "5.IH" [OF this] show ?case
    by (auto dest: append_prefixD)
next
  case (9 fn a i s rest)
  from "9.prems" consider "(t, n) \<in> set (located fn (a @ [Element i]) (a @ [Element i]) s)"
    | "(t, n) \<in> set (located_list fn a (Suc i) rest)"
    by auto
  then show ?case
  proof cases
    case 1
    from "9.IH"(1) [OF this] show ?thesis by auto
  next
    case 2
    from "9.IH"(2) [OF this] show ?thesis
      by (auto intro: Suc_leD)
  qed
qed (auto dest: aim_range split: option.splits)


lemma prefix_key: "prefix (a @ [x]) t \<Longrightarrow> prefix (a @ [y]) t \<Longrightarrow> x = y"
  by (auto simp add: prefix_def append_eq_append_conv2 Cons_eq_append_conv)

lemma prefix_longer: "prefix (a @ [x]) t \<Longrightarrow> length a < length t"
  by (auto simp add: prefix_def)

text \<open>
  Inside a function declaration at \<open>f\<close>: the names aimed at the function are the declared
  names that leave the statement.
\<close>

lemma located_escaping:
  "fn = Some f \<Longrightarrow> length f < length st \<Longrightarrow> length st \<le> length a \<Longrightarrow>
     hits (located fn st a s) f = declared_names (pending True s)"
  "fn = Some f \<Longrightarrow> length f \<le> length a \<Longrightarrow>
     hits (located_list fn a i ss) f = escaping ss"
proof (induction fn st a s and fn a i ss rule: located_located_list.induct)
  case (1 fn st a k ds)
  then have "f \<noteq> st" by auto
  then show ?case
    using 1 by (simp add: hits_aim_declared bindings_declared)
next
  case (2 fn st a e)
  then have "f \<noteq> st" by auto
  then have "hits (aim (Some f) st (map Assigned (assignments e))) f = []"
    by (simp add: hits_aim_declared names_of_assigned)
  then show ?case
    using 2 by (simp add: names_of_assigned)
next
  case (3 fn st a body)
  then show ?case
    by (simp add: names_of_assigned)
next
  case (4 fn st a test consequent alternate)
  then have ne: "f \<noteq> st" by auto
  have t: "hits (aim (Some f) st (map Assigned (assignments test))) f = []"
    using ne by (simp add: hits_aim_declared names_of_assigned)
  show ?case
    using 4 t
    by (auto simp add: hits_append hits_Nil declared_names_append names_of_assigned
        split: option.splits)
next
  case (5 fn st a g params body)
  have "f \<notin> fst ` set (located_list (Some a) a 0 body)"
  proof
    assume "f \<in> fst ` set (located_list (Some a) a 0 body)"
    then obtain n where "(f, n) \<in> set (located_list (Some a) a 0 body)" by auto
    from located_range(2) [OF this] show False
      using 5 by (auto dest: prefix_longer)
  qed
  then show ?case
    by (simp add: hits_none)
next
  case (6 fn st a argument)
  then have ne: "f \<noteq> st" by auto
  show ?case
    using 6 ne
    by (auto simp add: hits_Nil hits_aim_declared names_of_assigned split: option.splits)
next
  case (7 fn st a argument)
  then have ne: "f \<noteq> st" by auto
  show ?case
    using 7 ne by (simp add: hits_aim_declared names_of_assigned)
next
  case (8 fn a i)
  then show ?case by (simp add: hits_def)
next
  case (9 fn a i s rest)
  then show ?case
    by (simp add: hits_append)
qed


text \<open>
  The names aimed at the nearest statement that is an element of a list, from that
  statement or from a branch below it: the matches of the source that are still looking
  for their target when the search leaves the statement.
\<close>

lemma hits_aim_st:
  "\<forall>f. fn = Some f \<longrightarrow> length f < length st \<Longrightarrow>
   hits (aim fn st ms) st = (if fn = None then map name_of ms else assigned_names ms)"
  by (cases fn) (auto simp add: hits_aim_all intro!: hits_aim_assigned)

lemma located_pending:
  "block_level s \<Longrightarrow> \<not> is_function s \<Longrightarrow> (\<forall>f. fn = Some f \<longrightarrow> length f < length st) \<Longrightarrow>
     length st \<le> length a \<Longrightarrow>
     hits (located fn st a s) st
       = (if fn = None then map name_of (pending False s) else assigned_names (pending True s))"
  "located_list fn a i ss = located_list fn a i ss"
proof (induction fn st a s and fn a i ss rule: located_located_list.induct)
  case (1 fn st a k ds)
  then show ?case
    by (simp add: hits_aim_st bindings_declared)
next
  case (2 fn st a e)
  then show ?case
    by (simp add: hits_aim_st names_of_assigned assignments_assigned comp_def)
next
  case (3 fn st a body)
  have "st \<notin> fst ` set (located_list fn a 0 body)"
  proof
    assume "st \<in> fst ` set (located_list fn a 0 body)"
    then obtain n where "(st, n) \<in> set (located_list fn a 0 body)" by auto
    from located_range(2) [OF this] show False
      using 3 by (auto dest: prefix_longer)
  qed
  then show ?case
    by (simp add: hits_none names_of_assigned)
next
  case (4 fn st a test consequent alternate)
  have t: "hits (aim fn st (map Assigned (assignments test))) st = assigned test"
    using "4.prems"(3)
    by (simp add: hits_aim_st names_of_assigned assignments_assigned comp_def)
  have c: "hits (located fn st (a @ [Consequent]) consequent) st
             = (if fn = None then map name_of (pending False consequent)
                else assigned_names (pending True consequent))"
    using 4 by simp
  show ?case
  proof (cases alternate)
    case None
    then show ?thesis
      using t c
      by (simp add: hits_append hits_Nil assigned_names_append names_of_assigned comp_def)
  next
    case (Some s2)
    have "hits (located fn st (a @ [Alternate]) s2) st
            = (if fn = None then map name_of (pending False s2) else assigned_names (pending True s2))"
      using 4 Some by simp
    then show ?thesis
      using t c Some
      by (simp add: hits_append assigned_names_append names_of_assigned comp_def)
  qed
next
  case (5 fn st a f params body)
  then show ?case by simp
next
  case (6 fn st a argument)
  then show ?case
    by (auto simp add: hits_Nil hits_aim_st names_of_assigned assignments_assigned comp_def
        split: option.splits)
next
  case (7 fn st a argument)
  then show ?case
    by (simp add: hits_aim_st names_of_assigned assignments_assigned comp_def)
qed simp_all

text \<open>Behind a statement that is an element of a list: what the source inserts there.\<close>

lemma behind_listed:
  assumes "block_level s" and "\<forall>f. fn = Some f \<longrightarrow> length f < length b"
  shows "behind (located fn b b s) b = insertAfter (fn \<noteq> None) s"
proof (cases "is_function s")
  case True
  then obtain g params body where s: "s = FunctionDeclaration g params body"
    by (cases s) auto
  have "hits (located_list (Some b) b 0 body) b = escaping body"
    by (rule located_escaping(2)) simp_all
  then show ?thesis
    by (simp add: s behind_def insertAfter_def)
next
  case False
  then have "function_escaping s = []"
    by (cases s) auto
  then show ?thesis
    using located_pending(1) [OF assms(1) False assms(2) order_refl]
    by (auto simp add: behind_def insertAfter_def)
qed


lemma hits_aim_far:
  "t \<noteq> st \<Longrightarrow> \<forall>f. fn = Some f \<longrightarrow> f \<noteq> t \<Longrightarrow> hits (aim fn st ms) t = []"
  by (rule hits_none) (auto dest: aim_range)

lemma hits_located_far:
  "t \<noteq> st \<Longrightarrow> \<forall>f. fn = Some f \<longrightarrow> f \<noteq> t \<Longrightarrow> \<not> prefix a t \<Longrightarrow>
   hits (located fn st a s) t = []"
  by (rule hits_none) (auto dest: located_range(1))

lemma hits_list_far:
  "\<forall>f. fn = Some f \<longrightarrow> f \<noteq> t \<Longrightarrow> \<forall>j. i \<le> j \<longrightarrow> \<not> prefix (a @ [Element j]) t \<Longrightarrow>
   hits (located_list fn a i ss) t = []"
  by (rule hits_none) (auto dest: located_range(2))

text \<open>
  The placement by targets and the traversal of the source give the same statement,
  when the table of targets agrees, below the statement, with the targets of the
  statement's own bindings.
\<close>

lemma placed_traverse:
  "block_level s \<Longrightarrow> (\<forall>f. fn = Some f \<longrightarrow> length f < length st) \<Longrightarrow> length st \<le> length a \<Longrightarrow>
     (\<forall>t. strict_prefix a t \<longrightarrow> hits T t = hits (located fn st a s) t) \<Longrightarrow>
     placed T a s = traverse_stmt (fn \<noteq> None) s"
  "block_level_list ss \<Longrightarrow> (\<forall>f. fn = Some f \<longrightarrow> length f \<le> length a) \<Longrightarrow>
     (\<forall>t j. i \<le> j \<longrightarrow> prefix (a @ [Element j]) t \<longrightarrow> hits T t = hits (located_list fn a i ss) t) \<Longrightarrow>
     placed_list T a i ss = traverse_list (fn \<noteq> None) ss"
proof (induction fn st a s and fn a i ss rule: located_located_list.induct)
  case (3 fn st a body)
  have "placed_list T a 0 body = traverse_list (fn \<noteq> None) body"
  proof (rule "3.IH")
    show "block_level_list body"
      using "3.prems"(1) by simp
    show "\<forall>f. fn = Some f \<longrightarrow> length f \<le> length a"
      using "3.prems"(2,3) by auto
    show "\<forall>t j. 0 \<le> j \<longrightarrow> prefix (a @ [Element j]) t \<longrightarrow>
            hits T t = hits (located_list fn a 0 body) t"
    proof (intro allI impI)
      fix t j assume "prefix (a @ [Element j]) t"
      then have "strict_prefix a t"
        by (auto simp add: prefix_def strict_prefix_def)
      then show "hits T t = hits (located_list fn a 0 body) t"
        using "3.prems"(4) by simp
    qed
  qed
  then show ?case by simp
next
  case (4 fn st a test consequent alternate)
  have far: "hits (aim fn st (map Assigned (assignments test))) t = []" if "strict_prefix a t" for t
  proof (rule hits_aim_far)
    from that have l: "length a < length t"
      by (auto simp add: strict_prefix_def prefix_def)
    show "t \<noteq> st"
      using l "4.prems"(3) by auto
    show "\<forall>f. fn = Some f \<longrightarrow> f \<noteq> t"
      using l "4.prems"(2,3) by auto
  qed
  have other: "hits (located fn st (a @ [y]) s2) t = []"
    if "strict_prefix (a @ [x]) t" and "x \<noteq> y" for x y t s2
  proof (rule hits_located_far)
    from that have l: "length a < length t"
      by (auto simp add: strict_prefix_def prefix_def)
    show "t \<noteq> st"
      using l "4.prems"(3) by auto
    show "\<forall>f. fn = Some f \<longrightarrow> f \<noteq> t"
      using l "4.prems"(2,3) by auto
    show "\<not> prefix (a @ [y]) t"
      using that prefix_key [of a x t y] by (auto simp add: strict_prefix_def)
  qed
  have up: "strict_prefix a t" if "strict_prefix (a @ [x]) t" for x t
    using that by (auto simp add: strict_prefix_def prefix_def)
  have c: "placed T (a @ [Consequent]) consequent = traverse_stmt (fn \<noteq> None) consequent"
  proof (rule "4.IH"(1))
    show "block_level consequent"
      using "4.prems"(1) by simp
    show "\<forall>f. fn = Some f \<longrightarrow> length f < length st"
      using "4.prems"(2) .
    show "length st \<le> length (a @ [Consequent])"
      using "4.prems"(3) by simp
    show "\<forall>t. strict_prefix (a @ [Consequent]) t \<longrightarrow>
            hits T t = hits (located fn st (a @ [Consequent]) consequent) t"
    proof (intro allI impI)
      fix t assume t: "strict_prefix (a @ [Consequent]) t"
      have "hits T t = hits (located fn st a (IfStatement test consequent alternate)) t"
        using "4.prems"(4) up [OF t] by simp
      then show "hits T t = hits (located fn st (a @ [Consequent]) consequent) t"
        using far [OF up [OF t]] other [OF t, of Alternate]
        by (simp add: hits_append hits_Nil split: option.splits)
    qed
  qed
  have wc: "wrapped consequent (traverse_stmt (fn \<noteq> None) consequent)
              = traverse_stmt (fn \<noteq> None) consequent"
    using "4.prems"(1) by (simp add: wrapped_not_function)
  show ?case
  proof (cases alternate)
    case None
    then show ?thesis
      using c wc by simp
  next
    case (Some s2)
    have al: "placed T (a @ [Alternate]) s2 = traverse_stmt (fn \<noteq> None) s2"
    proof (rule "4.IH"(2) [OF Some])
      show "block_level s2"
        using "4.prems"(1) Some by simp
      show "\<forall>f. fn = Some f \<longrightarrow> length f < length st"
        using "4.prems"(2) .
      show "length st \<le> length (a @ [Alternate])"
        using "4.prems"(3) by simp
      show "\<forall>t. strict_prefix (a @ [Alternate]) t \<longrightarrow>
              hits T t = hits (located fn st (a @ [Alternate]) s2) t"
      proof (intro allI impI)
        fix t assume t: "strict_prefix (a @ [Alternate]) t"
        have "hits T t = hits (located fn st a (IfStatement test consequent alternate)) t"
          using "4.prems"(4) up [OF t] by simp
        then show "hits T t = hits (located fn st (a @ [Alternate]) s2) t"
          using far [OF up [OF t]] other [OF t, of Consequent] Some
          by (simp add: hits_append)
      qed
    qed
    have ws: "wrapped s2 (traverse_stmt (fn \<noteq> None) s2) = traverse_stmt (fn \<noteq> None) s2"
      using "4.prems"(1) Some by (simp add: wrapped_not_function)
    show ?thesis
      using c wc al ws Some by simp
  qed
next
  case (5 fn st a f params body)
  have "placed_list T a 0 body = traverse_list (Some a \<noteq> None) body"
  proof (rule "5.IH")
    show "block_level_list body"
      using "5.prems"(1) by simp
    show "\<forall>f. Some a = Some f \<longrightarrow> length f \<le> length a"
      by simp
    show "\<forall>t j. 0 \<le> j \<longrightarrow> prefix (a @ [Element j]) t \<longrightarrow>
            hits T t = hits (located_list (Some a) a 0 body) t"
    proof (intro allI impI)
      fix t j assume "prefix (a @ [Element j]) t"
      then have "strict_prefix a t"
        by (auto simp add: prefix_def strict_prefix_def)
      then show "hits T t = hits (located_list (Some a) a 0 body) t"
        using "5.prems"(4) by simp
    qed
  qed
  then show ?case by simp
next
  case (9 fn a i s rest)
  define b where "b = a @ [Element i]"
  have inv: "\<forall>f. fn = Some f \<longrightarrow> length f < length b"
    using "9.prems"(2) by (auto simp add: b_def)
  have split: "hits T t = hits (located fn b b s) t @ hits (located_list fn a (Suc i) rest) t"
    if "i \<le> j" and "prefix (a @ [Element j]) t" for t j
    using "9.prems"(3) that by (simp add: hits_append b_def)
  have rest_far: "hits (located_list fn a (Suc i) rest) t = []" if "prefix b t" for t
  proof (rule hits_list_far)
    show "\<forall>f. fn = Some f \<longrightarrow> f \<noteq> t"
      using that "9.prems"(2) prefix_longer [of a "Element i" t] by (auto simp add: b_def)
    show "\<forall>j. Suc i \<le> j \<longrightarrow> \<not> prefix (a @ [Element j]) t"
    proof (intro allI impI notI)
      fix j assume j: "Suc i \<le> j" and p: "prefix (a @ [Element j]) t"
      from prefix_key [OF that [unfolded b_def] p] have "Element i = Element j" .
      then show False
        using j by simp
    qed
  qed
  have own_far: "hits (located fn b b s) t = []" if "Suc i \<le> j" and "prefix (a @ [Element j]) t" for t j
  proof (rule hits_located_far)
    show "t \<noteq> b"
      using that prefix_key [of a "Element j" t "Element i"] by (auto simp add: b_def)
    show "\<forall>f. fn = Some f \<longrightarrow> f \<noteq> t"
      using that "9.prems"(2) prefix_longer [of a "Element j" t] by auto
    show "\<not> prefix b t"
      using that prefix_key [of a "Element j" t "Element i"] by (auto simp add: b_def)
  qed
  have s: "placed T b s = traverse_stmt (fn \<noteq> None) s"
  proof (rule "9.IH"(1) [folded b_def])
    show "block_level s"
      using "9.prems"(1) by simp
    show "\<forall>f. fn = Some f \<longrightarrow> length f < length b"
      using inv .
    show "length b \<le> length b"
      by simp
    show "\<forall>t. strict_prefix b t \<longrightarrow> hits T t = hits (located fn b b s) t"
    proof (intro allI impI)
      fix t assume "strict_prefix b t"
      then have p: "prefix b t" by (simp add: strict_prefix_def)
      then have "prefix (a @ [Element i]) t" by (simp add: b_def)
      from split [OF order_refl this] rest_far [OF p]
      show "hits T t = hits (located fn b b s) t" by simp
    qed
  qed
  have here: "behind T b = insertAfter (fn \<noteq> None) s"
  proof -
    have "prefix (a @ [Element i]) b" by (simp add: b_def)
    from split [OF order_refl this] rest_far [of b]
    have "hits T b = hits (located fn b b s) b" by simp
    then have "behind T b = behind (located fn b b s) b"
      by (simp add: behind_def)
    also have "\<dots> = insertAfter (fn \<noteq> None) s"
      using "9.prems"(1) inv by (intro behind_listed) simp_all
    finally show ?thesis .
  qed
  have r: "placed_list T a (Suc i) rest = traverse_list (fn \<noteq> None) rest"
  proof (rule "9.IH"(2))
    show "block_level_list rest"
      using "9.prems"(1) by simp
    show "\<forall>f. fn = Some f \<longrightarrow> length f \<le> length a"
      using "9.prems"(2) .
    show "\<forall>t j. Suc i \<le> j \<longrightarrow> prefix (a @ [Element j]) t \<longrightarrow>
            hits T t = hits (located_list fn a (Suc i) rest) t"
    proof (intro allI impI)
      fix t j assume j: "Suc i \<le> j" and p: "prefix (a @ [Element j]) t"
      from j have "i \<le> j" by simp
      from split [OF this p] own_far [OF j p]
      show "hits T t = hits (located_list fn a (Suc i) rest) t" by simp
    qed
  qed
  show ?case
    using s here r by (simp add: b_def)
qed simp_all

lemma mirrored_traverse:
  assumes "block_level_list program"
  shows "mirrored program = traverse program"
  unfolding mirrored_def traverse_def
  using placed_traverse(2) [of program None "[]" 0 "located_list None [] 0 program"] assms
  by simp

text \<open>
  C3, as the code has it. For a fragment of the node types above, as the module grammar
  gives it, the traversal puts \<^verbatim>\<open>globalThis.<name> = <name>;\<close> directly behind the target of
  every tracked binding, in the statement list that holds the target: behind the nearest
  enclosing function declaration for a declaration inside one, else behind the nearest
  enclosing statement that is an element of a statement list (inside a block when the
  binding is in one), the latest binding first where several have one target; and
  taking the statements of this form out of the result gives what taking them out of
  the fragment gives, so nothing else has changed.
\<close>

theorem traverse_contract:
  assumes "block_level_list program"
  shows "traverse program = mirrored program
         \<and> unmirror_list (traverse program) = unmirror_list program"
  using assms mirrored_traverse [of program] unmirror_traverse(2) [of program False]
  by (simp add: traverse_def)

theorem traverse_contract_witness:
  "block_level_list mixed
   \<and> located_list None [] 0 mixed
       = [([Element 0], ''page''), ([Element 0, Element 1], ''browser''), ([Element 1], ''context'')]
   \<and> traverse mixed =
       [FunctionDeclaration ''f'' []
          [const_page,
           ExpressionStatement (AssignmentExpression ''+='' (Identifier ''browser'') (NumericLiteral 1)),
           expressionStatement ''browser''],
        expressionStatement ''page'',
        IfStatement (Identifier ''c'')
          (ExpressionStatement (AssignmentExpression ''='' (Identifier ''context'') NullLiteral))
          None,
        expressionStatement ''context'']
   \<and> mirrored mixed = traverse mixed
   \<and> unmirror_list (traverse mixed) = unmirror_list mixed"
proof -
  have h: "block_level_list mixed"
    by (simp add: mixed_def const_page_def)
  have l: "located_list None [] 0 mixed
       = [([Element 0], ''page''), ([Element 0, Element 1], ''browser''), ([Element 1], ''context'')]"
    by (simp add: mixed_def const_page_def aim_def TRACKED_VARIABLES_def)
  have t: "traverse mixed =
       [FunctionDeclaration ''f'' []
          [const_page,
           ExpressionStatement (AssignmentExpression ''+='' (Identifier ''browser'') (NumericLiteral 1)),
           expressionStatement ''browser''],
        expressionStatement ''page'',
        IfStatement (Identifier ''c'')
          (ExpressionStatement (AssignmentExpression ''='' (Identifier ''context'') NullLiteral))
          None,
        expressionStatement ''context'']"
    by (simp add: mixed_def const_page_def traverse_def insertAfter_def wrapped_def
        TRACKED_VARIABLES_def)
  have m: "mirrored mixed = traverse mixed"
    using traverse_contract [OF h] by simp
  have u: "unmirror_list (traverse mixed) = unmirror_list mixed"
    using traverse_contract [OF h] by blast
  show ?thesis
    using h l t m u by blast
qed

text \<open>
  C3 as stated fails. A declaration inside a block, outside any function: the
  specification puts the statement behind the top-level statement (the block); the code
  puts it inside the block, right behind the declaration.
\<close>

theorem traverse_nested_counterexample:
  "traverse nested_declaration = [BlockStatement [const_page, expressionStatement ''page'']]
   \<and> spec_after_top_level nested_declaration
       = [BlockStatement [const_page], expressionStatement ''page'']
   \<and> traverse nested_declaration \<noteq> spec_after_top_level nested_declaration"
  by (simp add: nested_declaration_def const_page_def traverse_def insertAfter_def
      spec_after_top_level_def TRACKED_VARIABLES_def)


text \<open>
  C4. The rewriter has no error result. When the parser throws, or the generator does,
  it returns the fragment as it was given, and the failure is one diagnostic line.
\<close>

theorem rewrite_fallback:
  assumes "parse bb code = Inl e
           \<or> (\<exists>ast. parse bb code = Inr ast \<and> generate bb (traverse ast) = Inl e)"
  shows "rewriteCodeToTrackVariables bb code = (code, [''AST parsing/rewriting failed: '' @ e])"
  using assms by (auto simp add: rewriteCodeToTrackVariables_def)

theorem rewrite_fallback_witness:
  "parse echo_babel ''const = ;'' = Inl ''SyntaxError''
   \<and> rewriteCodeToTrackVariables echo_babel ''const = ;''
       = (''const = ;'', [''AST parsing/rewriting failed: SyntaxError''])"
proof -
  have h: "parse echo_babel ''const = ;'' = Inl ''SyntaxError''"
    by (simp add: echo_babel_def)
  show ?thesis
    using h rewrite_fallback [of echo_babel "''const = ;''" "''SyntaxError''"] by simp
qed

text \<open>
  C9. A fragment that neither declares nor assigns a tracked name comes out of the
  traversal as it went in: the rewriter returns the generator's text of the parsed
  fragment (or the fragment itself when the generator throws).
\<close>

theorem rewrite_untouched:
  assumes "parse bb code = Inr ast"
    and "set (touched_list ast) \<inter> TRACKED_VARIABLES = {}"
  shows "traverse ast = ast
         \<and> rewriteCodeToTrackVariables bb code =
             (case generate bb ast of
                Inl err \<Rightarrow> (code, [''AST parsing/rewriting failed: '' @ err])
              | Inr out \<Rightarrow> (out, []))"
proof -
  have "traverse ast = ast"
    using assms(2) untouched_no_sites traverse_identity(2) by (simp add: traverse_def)
  then show ?thesis
    using assms(1) by (simp add: rewriteCodeToTrackVariables_def)
qed

theorem rewrite_untouched_witness:
  "parse echo_babel ''x'' = Inr untracked
   \<and> set (touched_list untracked) \<inter> TRACKED_VARIABLES = {}
   \<and> traverse untracked = untracked
   \<and> rewriteCodeToTrackVariables echo_babel ''x'' = (''x;'', [])"
proof -
  have p: "parse echo_babel ''x'' = Inr untracked"
    by (simp add: echo_babel_def)
  have u: "set (touched_list untracked) \<inter> TRACKED_VARIABLES = {}"
    by (simp add: untracked_def TRACKED_VARIABLES_def)
  have g: "generate echo_babel untracked = Inr ''x;''"
    by (simp add: echo_babel_def)
  show ?thesis
    using p u g rewrite_untouched [OF p u] by simp
qed

lemma bare_bindings_sites:
  "bare_bindings s = map name_of (sites s)"
  "bare_bindings_list ss = map name_of (sites_list ss)"
  by (induction s and ss rule: sites_sites_list.induct)
     (auto simp add: assignments_assigned bindings_declared comp_def split: option.splits)

lemma mirror_name_mirror: "n \<in> TRACKED_VARIABLES \<Longrightarrow> mirror_name (expressionStatement n) = [n]"
  by (simp add: expressionStatement_def globalAssignment_def)

lemma mirror_names_mirror: "mirror_names (expressionStatement n) = []"
  by (simp add: expressionStatement_def)

lemma mirror_names_prefix:
  "set ns \<subseteq> TRACKED_VARIABLES \<Longrightarrow>
   mirror_names_list (map expressionStatement ns @ rest) = ns @ mirror_names_list rest"
  by (induction ns) (auto simp add: mirror_name_mirror mirror_names_mirror)

lemma mirror_name_traverse: "mirror_name (traverse_stmt infun s) = mirror_name s"
  by (cases s) auto

lemma mset_names:
  "mset (assigned_names ms) + mset (declared_names ms) = mset (map name_of ms)"
  by (induction ms rule: declared_names.induct) auto

lemma mirror_names_wrapped:
  "mset (mirror_names (wrapped s (traverse_stmt infun s)))
     = mset (mirror_names (traverse_stmt infun s)) + mset (function_escaping s)"
  using function_escaping_tracked [of s]
  by (cases s) (auto simp add: wrapped_def mirror_names_prefix [where rest = "[]", simplified])

lemma mirror_names_traverse:
  "mset (mirror_names (traverse_stmt infun s)) + mset (map name_of (pending infun s))
     + mset (function_escaping s)
     = mset (mirror_names s) + mset (map name_of (sites s))"
  "mset (mirror_names_list (traverse_list infun ss)) + (if infun then mset (escaping ss) else {#})
     = mset (mirror_names_list ss) + mset (map name_of (sites_list ss))"
proof (induction infun s and infun ss rule: traverse_stmt_traverse_list.induct)
  case (1 infun body)
  then show ?case by (cases infun) (auto simp add: comp_def)
next
  case (2 infun test consequent alternate)
  show ?case
  proof (cases alternate)
    case None
    then show ?thesis
      using 2(1) by (simp add: mirror_names_wrapped ac_simps)
  next
    case (Some s)
    from 2(1) 2(2) [OF Some] have
      "(mset (mirror_names (traverse_stmt infun consequent))
          + mset (map name_of (pending infun consequent)) + mset (function_escaping consequent))
       + (mset (mirror_names (traverse_stmt infun s))
          + mset (map name_of (pending infun s)) + mset (function_escaping s))
       = (mset (mirror_names consequent) + mset (map name_of (sites consequent)))
         + (mset (mirror_names s) + mset (map name_of (sites s)))"
      by simp
    then show ?thesis
      using Some by (simp add: mirror_names_wrapped ac_simps)
  qed
next
  case (3 infun f params body)
  then show ?case by auto
next
  case (9 infun s rest)
  define m where "m = mset (mirror_name s)"
  define A where "A = mset (mirror_names (traverse_stmt infun s))"
  define P where "P = mset (map name_of (pending infun s))"
  define F where "F = mset (function_escaping s)"
  define AL where "AL = mset (mirror_names_list (traverse_list infun rest))"
  define E where "E = (if infun then mset (escaping rest) else {#})"
  define D where "D = (if infun then mset (declared_names (pending infun s)) else {#})"
  define I where "I = mset (insertAfter infun s)"
  define R where "R = mset (mirror_names s) + mset (map name_of (sites s))
                       + (mset (mirror_names_list rest) + mset (map name_of (sites_list rest)))"
  have tr: "set (insertAfter infun s) \<subseteq> TRACKED_VARIABLES"
    by (rule insertAfter_tracked)
  have shape: "mset (mirror_names_list (traverse_list infun (s # rest))) = m + A + I + AL"
    by (simp add: mirror_names_prefix [OF tr] mirror_name_traverse m_def A_def I_def AL_def)
  have esc: "(if infun then mset (escaping (s # rest)) else {#}) = D + E"
    by (simp add: D_def E_def)
  have ins: "I + D = F + P"
    using mset_names [of "pending infun s"]
    by (cases infun) (simp_all add: I_def D_def F_def P_def insertAfter_def ac_simps del: mset_map)
  have ih: "(A + P + F) + (AL + E) = R"
    using 9(1) 9(2) by (simp add: A_def P_def F_def AL_def E_def R_def)
  have "m + A + I + AL + (D + E) = m + (A + (I + D) + AL + E)"
    by (simp add: ac_simps)
  also have "\<dots> = m + ((A + P + F) + (AL + E))"
    by (simp only: ins, simp add: ac_simps)
  also have "\<dots> = m + R"
    by (simp only: ih)
  finally have "m + A + I + AL + (D + E) = m + R" .
  then show ?case
    unfolding shape [symmetric] esc [symmetric]
    by (simp add: m_def R_def ac_simps)
qed auto


text \<open>
  C10. The statements the traversal adds are, name by name, the fragment's bindings of
  tracked names through bare identifiers, and nothing else: a name that the fragment
  does not bind through a bare identifier gets no statement, whatever patterns bind it
  and whatever member expressions assign it next to bare bindings of other names; and a
  fragment without a bare binding of a tracked name comes out unchanged.
\<close>

theorem patterns_not_tracked:
  "mset (mirror_names_list (traverse ast))
     = mset (mirror_names_list ast) + mset (bare_bindings_list ast)
   \<and> (\<forall>n. n \<notin> set (bare_bindings_list ast) \<longrightarrow>
          count (mset (mirror_names_list (traverse ast))) n = count (mset (mirror_names_list ast)) n)
   \<and> (bare_bindings_list ast = [] \<longrightarrow> traverse ast = ast)"
proof -
  have eq: "mset (mirror_names_list (traverse ast))
              = mset (mirror_names_list ast) + mset (bare_bindings_list ast)"
    using mirror_names_traverse(2) [of False ast]
    by (simp add: traverse_def bare_bindings_sites(2))
  have one: "count (mset (mirror_names_list (traverse ast))) n = count (mset (mirror_names_list ast)) n"
    if "n \<notin> set (bare_bindings_list ast)" for n
    using that by (simp add: eq count_eq_zero_iff)
  have same: "traverse ast = ast" if "bare_bindings_list ast = []"
  proof -
    from that have "sites_list ast = []"
      by (simp add: bare_bindings_sites(2))
    then show ?thesis
      using traverse_identity(2) [of ast False] by (simp add: traverse_def)
  qed
  show ?thesis
    using eq one same by blast
qed

theorem patterns_not_tracked_witness:
  "''page'' \<in> set (touched_list pattern_and_bare)
   \<and> bare_bindings_list pattern_and_bare = [''browser'']
   \<and> traverse pattern_and_bare
       = [pattern_and_bare ! 0, expressionStatement ''browser'', pattern_and_bare ! 1]
   \<and> mset (mirror_names_list (traverse pattern_and_bare)) = {#''browser''#}
   \<and> count (mset (mirror_names_list (traverse pattern_and_bare))) ''page'' = 0
   \<and> bare_bindings_list destructured = []
   \<and> ''page'' \<in> set (touched_list destructured)
   \<and> traverse destructured = destructured"
proof -
  have t: "''page'' \<in> set (touched_list pattern_and_bare)"
    by (simp add: pattern_and_bare_def)
  have b: "bare_bindings_list pattern_and_bare = [''browser'']"
    by (simp add: pattern_and_bare_def TRACKED_VARIABLES_def)
  have m: "mirror_names_list pattern_and_bare = []"
    by (simp add: pattern_and_bare_def)
  have tr: "traverse pattern_and_bare
              = [pattern_and_bare ! 0, expressionStatement ''browser'', pattern_and_bare ! 1]"
    by (simp add: pattern_and_bare_def traverse_def insertAfter_def TRACKED_VARIABLES_def)
  have np: "''page'' \<notin> set (bare_bindings_list pattern_and_bare)"
    by (simp add: b)
  from patterns_not_tracked [of pattern_and_bare] have
    eq: "mset (mirror_names_list (traverse pattern_and_bare))
           = mset (mirror_names_list pattern_and_bare) + mset (bare_bindings_list pattern_and_bare)"
    and one: "count (mset (mirror_names_list (traverse pattern_and_bare))) ''page''
                = count (mset (mirror_names_list pattern_and_bare)) ''page''"
    using np by blast+
  have bd: "bare_bindings_list destructured = []"
    by (simp add: destructured_def)
  have td: "''page'' \<in> set (touched_list destructured)"
    by (simp add: destructured_def)
  from patterns_not_tracked [of destructured] bd have id: "traverse destructured = destructured"
    by blast
  show ?thesis
    using t b tr eq one bd td id by (simp add: m)
qed

subsection \<open>The executor's buffers and contexts\<close>

lemma fold_effects_frame:
  "contexts (fold apply_effect effs ex) = contexts ex
   \<and> consoleHandlers (fold apply_effect effs ex) = consoleHandlers ex
   \<and> sessionManager (fold apply_effect effs ex) = sessionManager ex
   \<and> clock (fold apply_effect effs ex) = clock ex"
proof (induction effs arbitrary: ex)
  case Nil
  then show ?case by simp
next
  case (Cons e effs)
  show ?case
    by (cases e) (simp_all add: Cons sessionConsole_def on_console_def Let_def split: option.splits)
qed

lemma apply_effect_session:
  "buffer (sessionConsoleMessages (apply_effect e ex)) sessionId
     = buffer (sessionConsoleMessages ex) sessionId @ session_lines sessionId [e]"
  by (cases e)
     (simp_all add: sessionConsole_def on_console_def Let_def buffer_def split: option.splits)

lemma fold_effects_session:
  "buffer (sessionConsoleMessages (fold apply_effect effs ex)) sessionId
     = buffer (sessionConsoleMessages ex) sessionId @ session_lines sessionId effs"
proof (induction effs arbitrary: ex)
  case Nil
  then show ?case by simp
next
  case (Cons e effs)
  have "session_lines sessionId (e # effs) = session_lines sessionId [e] @ session_lines sessionId effs"
    by (cases e) simp_all
  then show ?case
    using Cons [of "apply_effect e ex"] apply_effect_session [of e ex sessionId] by simp
qed

lemma apply_effect_page:
  "buffer (consoleMessages (apply_effect e ex)) sessionId
     = buffer (consoleMessages ex) sessionId @ page_lines (consoleHandlers ex) sessionId [e]"
  by (cases e)
     (auto simp add: sessionConsole_def on_console_def Let_def buffer_def split: option.splits)

lemma apply_effect_handlers: "consoleHandlers (apply_effect e ex) = consoleHandlers ex"
  by (cases e) (simp_all add: sessionConsole_def on_console_def Let_def split: option.splits)

lemma fold_effects_page:
  "buffer (consoleMessages (fold apply_effect effs ex)) sessionId
     = buffer (consoleMessages ex) sessionId @ page_lines (consoleHandlers ex) sessionId effs"
proof (induction effs arbitrary: ex)
  case Nil
  then show ?case by simp
next
  case (Cons e effs)
  have "page_lines (consoleHandlers ex) sessionId (e # effs)
          = page_lines (consoleHandlers ex) sessionId [e] @ page_lines (consoleHandlers ex) sessionId effs"
    by (cases e) simp_all
  then show ?case
    using Cons [of "apply_effect e ex"] apply_effect_page [of e ex sessionId]
      apply_effect_handlers [of e ex]
    by simp
qed

lemma registerConsoleHandler_frame:
  "registerConsoleHandler sessionId p ex = Inr ex' \<Longrightarrow>
   contexts ex' = contexts ex \<and> consoleMessages ex' = consoleMessages ex
   \<and> sessionConsoleMessages ex' = sessionConsoleMessages ex \<and> clock ex' = clock ex"
  by (auto simp add: registerConsoleHandler_def split: if_splits option.splits)

lemma bind_instances_frame:
  "bind_instances sessionId c b c' p ex = (r, ex') \<Longrightarrow>
   consoleMessages ex' = consoleMessages ex
   \<and> sessionConsoleMessages ex' = sessionConsoleMessages ex
   \<and> clock ex' = clock ex
   \<and> contexts ex' sessionId \<noteq> None
   \<and> (\<forall>other. other \<noteq> sessionId \<longrightarrow> contexts ex' other = contexts ex other)"
  by (auto simp add: bind_instances_def Let_def split: sum.splits dest!: registerConsoleHandler_frame)

lemma ensurePlaywrightInitialized_frame:
  "ensurePlaywrightInitialized sessionId ex = (r, ex') \<Longrightarrow>
   consoleMessages ex' = consoleMessages ex
   \<and> sessionConsoleMessages ex' = sessionConsoleMessages ex
   \<and> clock ex' = clock ex
   \<and> (contexts ex sessionId \<noteq> None \<longrightarrow> contexts ex' sessionId \<noteq> None)
   \<and> (\<forall>other. other \<noteq> sessionId \<longrightarrow> contexts ex' other = contexts ex other)"
  by (auto simp add: ensurePlaywrightInitialized_def
      split: option.splits if_splits prod.splits sum.splits dest!: bind_instances_frame)

lemma log_diagnostics_frame:
  "contexts (log_diagnostics ls ex) = contexts ex
   \<and> consoleMessages (log_diagnostics ls ex) = consoleMessages ex
   \<and> sessionConsoleMessages (log_diagnostics ls ex) = sessionConsoleMessages ex
   \<and> consoleHandlers (log_diagnostics ls ex) = consoleHandlers ex
   \<and> clock (log_diagnostics ls ex) = clock ex"
  by (simp add: log_diagnostics_def)

lemma evaluate_frame:
  "evaluate run sessionId code ex = Some (outcome, ex') \<Longrightarrow>
   (contexts ex sessionId \<noteq> None \<longrightarrow> contexts ex' sessionId \<noteq> None)
   \<and> (\<forall>other. other \<noteq> sessionId \<longrightarrow> contexts ex' other = contexts ex other)"
  by (auto simp add: evaluate_def fold_effects_frame split: option.splits)

lemma initializeContext_frame:
  "contexts (initializeContext sessionId ex) sessionId \<noteq> None
   \<and> (\<forall>other. other \<noteq> sessionId \<longrightarrow>
        contexts (initializeContext sessionId ex) other = contexts ex other)
   \<and> buffer (consoleMessages (initializeContext sessionId ex)) sessionId = []
   \<and> buffer (sessionConsoleMessages (initializeContext sessionId ex)) sessionId = []"
  by (simp add: initializeContext_def Let_def buffer_def)

lemma finish_contexts:
  "contexts (snd (succeeded sessionId v ex)) = contexts ex"
  "contexts (snd (failed sessionId e ex)) = contexts ex"
  by (simp_all add: succeeded_def failed_def drain_def)

text \<open>
  C2. A call of \<open>execute\<close> for one session leaves the context of every other session as
  it was: the evaluation is given the context of its own session only, and only that
  entry of the map is written.
\<close>

theorem execute_isolated:
  assumes "execute run bb a code ex = Some (r, ex')" and "b \<noteq> a"
  shows "contexts ex' b = contexts ex b"
proof -
  define ex1 where "ex1 = (if contexts ex a = None then initializeContext a ex else ex)"
  have c1: "contexts ex1 b = contexts ex b"
    using assms(2) initializeContext_frame [of a ex] by (simp add: ex1_def)
  obtain e ex2 where en: "ensurePlaywrightInitialized a ex1 = (e, ex2)"
    by (cases "ensurePlaywrightInitialized a ex1")
  have c2: "contexts ex2 b = contexts ex b"
    using ensurePlaywrightInitialized_frame [OF en] assms(2) c1 by simp
  show ?thesis
  proof (cases e)
    case (Inl err)
    then show ?thesis
      using assms(1) en c2
      by (auto simp add: execute_def ex1_def [symmetric] failed_def drain_def)
  next
    case (Inr u)
    obtain rewritten diag where rw: "rewriteCodeToTrackVariables bb code = (rewritten, diag)"
      by (cases "rewriteCodeToTrackVariables bb code")
    from assms(1) en Inr rw obtain outcome ex3 where
      ev: "evaluate run a (wrappedCode rewritten) (log_diagnostics diag ex2) = Some (outcome, ex3)"
      and fin: "(r, ex') = (case outcome of Resolved v \<Rightarrow> succeeded a v ex3
                                          | Rejected t \<Rightarrow> failed a t ex3)"
      by (auto simp add: execute_def ex1_def [symmetric] split: option.splits completion.splits)
    have c3: "contexts ex3 b = contexts ex b"
      using evaluate_frame [OF ev] assms(2) c2 log_diagnostics_frame [of diag ex2] by simp
    show ?thesis
      using fin c3 finish_contexts [of a _ ex3]
      by (cases outcome) (auto simp add: succeeded_def failed_def drain_def)
  qed
qed

lemma drain_buffers:
  "consoleMessages (drain sessionId ex) sessionId = Some []"
  "sessionConsoleMessages (drain sessionId ex) sessionId = Some []"
  "contexts (drain sessionId ex) = contexts ex"
  by (simp_all add: drain_def)

lemma execute_logs:
  assumes "execute run bb sessionId code ex = Some (r, ex')"
  shows "browserConsoleLogs r
           = backlog ex (consoleMessages ex) sessionId @ fst (emitted run bb sessionId code ex)
         \<and> sessionConsoleLogs r
           = backlog ex (sessionConsoleMessages ex) sessionId @ snd (emitted run bb sessionId code ex)
         \<and> consoleMessages ex' sessionId = Some []
         \<and> sessionConsoleMessages ex' sessionId = Some []
         \<and> contexts ex' sessionId \<noteq> None"
proof -
  define ex1 where "ex1 = (if contexts ex sessionId = None then initializeContext sessionId ex else ex)"
  have b1: "buffer (consoleMessages ex1) sessionId = backlog ex (consoleMessages ex) sessionId"
    "buffer (sessionConsoleMessages ex1) sessionId = backlog ex (sessionConsoleMessages ex) sessionId"
    using initializeContext_frame [of sessionId ex] by (simp_all add: ex1_def backlog_def)
  have c1: "contexts ex1 sessionId \<noteq> None"
    using initializeContext_frame [of sessionId ex] by (simp add: ex1_def)
  obtain e ex2 where en: "ensurePlaywrightInitialized sessionId ex1 = (e, ex2)"
    by (cases "ensurePlaywrightInitialized sessionId ex1")
  note f2 = ensurePlaywrightInitialized_frame [OF en]
  have b2: "buffer (consoleMessages ex2) sessionId = backlog ex (consoleMessages ex) sessionId"
    "buffer (sessionConsoleMessages ex2) sessionId = backlog ex (sessionConsoleMessages ex) sessionId"
    using f2 b1 by simp_all
  have c2: "contexts ex2 sessionId \<noteq> None"
    using f2 c1 by simp
  show ?thesis
  proof (cases e)
    case (Inl err)
    have em: "emitted run bb sessionId code ex = ([], [])"
      using en Inl by (simp add: emitted_def ex1_def [symmetric])
    have "(r, ex') = failed sessionId (host_error ''Error'' err) ex2"
      using assms en Inl by (simp add: execute_def ex1_def [symmetric])
    then show ?thesis
      using em b2 c2 by (simp add: failed_def drain_def)
  next
    case (Inr u)
    obtain rewritten diag where rw: "rewriteCodeToTrackVariables bb code = (rewritten, diag)"
      by (cases "rewriteCodeToTrackVariables bb code")
    obtain c where c: "contexts ex2 sessionId = Some c"
      using c2 by auto
    define ex2' where "ex2' = log_diagnostics diag ex2"
    have l2: "contexts ex2' = contexts ex2" "consoleMessages ex2' = consoleMessages ex2"
      "sessionConsoleMessages ex2' = sessionConsoleMessages ex2"
      "consoleHandlers ex2' = consoleHandlers ex2" "clock ex2' = clock ex2"
      using log_diagnostics_frame [of diag ex2] by (simp_all add: ex2'_def)
    from assms en Inr rw obtain outcome ex3 where
      ev: "evaluate run sessionId (wrappedCode rewritten) ex2' = Some (outcome, ex3)"
      and fin: "(r, ex') = (case outcome of Resolved v \<Rightarrow> succeeded sessionId v ex3
                                          | Rejected t \<Rightarrow> failed sessionId t ex3)"
      by (auto simp add: execute_def ex1_def [symmetric] ex2'_def
          split: option.splits completion.splits)
    from ev c l2 obtain effs c' t where
      run: "run (wrappedCode rewritten) c (clock ex2) = Some (effs, outcome, c', t)"
      and ex3: "ex3 = fold apply_effect effs (ex2'\<lparr>contexts := (contexts ex2')(sessionId \<mapsto> c'), clock := t\<rparr>)"
      by (auto simp add: evaluate_def split: option.splits)
    have em: "emitted run bb sessionId code ex
                = (page_lines (consoleHandlers ex2) sessionId effs, session_lines sessionId effs)"
      using en Inr rw c run by (simp add: emitted_def ex1_def [symmetric])
    have b3: "buffer (consoleMessages ex3) sessionId
                = backlog ex (consoleMessages ex) sessionId @ page_lines (consoleHandlers ex2) sessionId effs"
      "buffer (sessionConsoleMessages ex3) sessionId
                = backlog ex (sessionConsoleMessages ex) sessionId @ session_lines sessionId effs"
      using b2 l2 by (simp_all add: ex3 fold_effects_page fold_effects_session)
    have c3: "contexts ex3 sessionId \<noteq> None"
      by (simp add: ex3 fold_effects_frame)
    show ?thesis
      using fin em b3 c3
      by (cases outcome) (auto simp add: succeeded_def failed_def drain_def)
  qed
qed

text \<open>
  C5. Every call of \<open>execute\<close> that returns, with a success or with a failure, returns
  each buffer as it stands then (what the session had in it when the call started, then
  the lines of this evaluation, oldest first) and leaves it empty. So the next call for
  the session returns the lines of its own evaluation only: none of the lines a call
  has returned is returned again.
\<close>

theorem execute_drains:
  assumes "execute run bb sessionId code1 ex = Some (r1, ex1)"
    and "execute run bb sessionId code2 ex1 = Some (r2, ex2)"
  shows "browserConsoleLogs r1
           = backlog ex (consoleMessages ex) sessionId @ fst (emitted run bb sessionId code1 ex)
         \<and> sessionConsoleLogs r1
           = backlog ex (sessionConsoleMessages ex) sessionId @ snd (emitted run bb sessionId code1 ex)
         \<and> consoleMessages ex1 sessionId = Some [] \<and> sessionConsoleMessages ex1 sessionId = Some []
         \<and> browserConsoleLogs r2 = fst (emitted run bb sessionId code2 ex1)
         \<and> sessionConsoleLogs r2 = snd (emitted run bb sessionId code2 ex1)
         \<and> consoleMessages ex2 sessionId = Some [] \<and> sessionConsoleMessages ex2 sessionId = Some []"
  using execute_logs [OF assms(1)] execute_logs [OF assms(2)]
  by (simp add: backlog_def buffer_def)

subsection \<open>Evaluation\<close>























theorem execute_isolated_witness:
  "''b'' \<noteq> ''a''
   \<and> slot ''b'' ''page'' other_session = Some (Handle 7)
   \<and> map_option (slot ''a'' ''page'' \<circ> snd)
       (execute toy_vm toy_babel ''a'' ''page = null'' other_session) = Some (Some Null)
   \<and> map_option (slot ''b'' ''page'' \<circ> snd)
       (execute toy_vm toy_babel ''a'' ''page = null'' other_session) = Some (Some (Handle 7))"
proof -
  have d: "''b'' \<noteq> ''a''"
    by simp
  have s: "slot ''b'' ''page'' other_session = Some (Handle 7)"
    by code_simp
  have a: "map_option (slot ''a'' ''page'' \<circ> snd)
             (execute toy_vm toy_babel ''a'' ''page = null'' other_session) = Some (Some Null)"
    by code_simp
  then obtain r ex' where
    e: "execute toy_vm toy_babel ''a'' ''page = null'' other_session = Some (r, ex')"
    by auto
  from execute_isolated [OF e d] have "slot ''b'' ''page'' ex' = slot ''b'' ''page'' other_session"
    by (simp add: slot_def)
  then show ?thesis
    using d s a e by simp
qed

theorem execute_drains_witness:
  "map_option (sessionConsoleLogs \<circ> fst)
     (execute toy_vm toy_babel ''s'' ''console.log(\"a\")'' new_executor) = Some [''[LOG] a'']
   \<and> map_option (success \<circ> fst)
       (execute toy_vm toy_babel ''s'' ''console.log(\"a\")'' new_executor) = Some True
   \<and> (case execute toy_vm toy_babel ''s'' ''console.log(\"a\")'' new_executor of
         None \<Rightarrow> False
       | Some x \<Rightarrow>
           map_option (sessionConsoleLogs \<circ> fst)
             (execute toy_vm toy_babel ''s'' ''console.log(\"b\"); throw \"stop\"'' (snd x))
             = Some [''[LOG] b'']
           \<and> map_option (success \<circ> fst)
               (execute toy_vm toy_babel ''s'' ''console.log(\"b\"); throw \"stop\"'' (snd x))
               = Some False
           \<and> map_option (\<lambda>y. sessionConsoleMessages (snd y) ''s'')
               (execute toy_vm toy_babel ''s'' ''console.log(\"b\"); throw \"stop\"'' (snd x))
               = Some (Some []))"
proof -
  have a: "map_option (sessionConsoleLogs \<circ> fst)
             (execute toy_vm toy_babel ''s'' ''console.log(\"a\")'' new_executor) = Some [''[LOG] a'']
           \<and> map_option (success \<circ> fst)
               (execute toy_vm toy_babel ''s'' ''console.log(\"a\")'' new_executor) = Some True"
    by code_simp
  then obtain r1 ex1 where
    e1: "execute toy_vm toy_babel ''s'' ''console.log(\"a\")'' new_executor = Some (r1, ex1)"
    by auto
  have "(case execute toy_vm toy_babel ''s'' ''console.log(\"a\")'' new_executor of
           None \<Rightarrow> False
         | Some x \<Rightarrow>
             map_option (sessionConsoleLogs \<circ> fst)
               (execute toy_vm toy_babel ''s'' ''console.log(\"b\"); throw \"stop\"'' (snd x))
               = Some [''[LOG] b'']
             \<and> map_option (success \<circ> fst)
                 (execute toy_vm toy_babel ''s'' ''console.log(\"b\"); throw \"stop\"'' (snd x))
                 = Some False)"
    by code_simp
  then have b: "map_option (sessionConsoleLogs \<circ> fst)
                  (execute toy_vm toy_babel ''s'' ''console.log(\"b\"); throw \"stop\"'' ex1)
                  = Some [''[LOG] b'']
                \<and> map_option (success \<circ> fst)
                    (execute toy_vm toy_babel ''s'' ''console.log(\"b\"); throw \"stop\"'' ex1)
                    = Some False"
    using e1 by simp
  then obtain r2 ex2 where
    e2: "execute toy_vm toy_babel ''s'' ''console.log(\"b\"); throw \"stop\"'' ex1 = Some (r2, ex2)"
    by auto
  from execute_drains [OF e1 e2] have "sessionConsoleMessages ex2 ''s'' = Some []"
    by simp
  then show ?thesis
    using a b e1 e2 by simp
qed

subsection \<open>The result of a call\<close>






subsection \<open>Persistence of a tracked name\<close>





















end
